theory Spec2Isabelle
  imports Complex_Main "HOL-Library.AList"
begin

section \<open>Values, exceptions and the outside world\<close>

text \<open>
  The module \<^verbatim>\<open>sniff_and_trace/trace.py\<close> keeps a dictionary \<^verbatim>\<open>ip_locations\<close> and a set
  \<^verbatim>\<open>blacklisted_ips\<close>, loads and saves the dictionary as a comma separated file, asks a
  geolocation service for the coordinates of an address, and builds the plot data of a
  traceroute.

  Python values that come out of \<^verbatim>\<open>json.loads\<close> are modelled by the datatype \<open>json\<close>. A
  Python float is idealised as a real number (no rounding, no NaN, no infinities); a JSON
  object is the association list of its members, read with \<open>map_of\<close>.
\<close>

datatype json =
    JNull
  | JBool bool
  | JInt int
  | JFloat real
  | JStr string
  | JArr "json list"
  | JObj "(string \<times> json) list"

datatype py_error = ValueError | TypeError | KeyError | OSError | OtherException

abbreviation LF :: char where "LF \<equiv> CHR 0x0A"
abbreviation CR :: char where "CR \<equiv> CHR 0x0D"

datatype ip_family = IPv4Address | IPv6Address

text \<open>
  Everything the module calls but does not define is a field of \<open>env\<close>:
  \<^item> \<open>ip_address\<close>: \<^verbatim>\<open>ipaddress.ip_address\<close>; \<open>None\<close> is its ValueError.
  \<^item> \<open>traceroute\<close>, \<open>traceroute6\<close>: scapy's probes. The first argument is the number of
    probes made before, so that the network may answer differently each time. The
    answer is the list \<^verbatim>\<open>ans.res\<close> as pairs (\<^verbatim>\<open>sent.dst\<close>, \<^verbatim>\<open>received.src\<close>).
  \<^item> \<open>urlopen_json\<close>: \<^verbatim>\<open>json.loads(urlopen(...).read().decode())\<close> for an address; the first
    argument is the number of lookups made before. \<open>Inl\<close> is any exception of the
    transport, the decoding or the JSON parser.
  \<^item> \<open>gethostbyaddr\<close>: \<^verbatim>\<open>socket.gethostbyaddr\<close>, indexed like the probes.
  \<^item> \<open>py_float\<close>: the builtin \<^verbatim>\<open>float\<close> on a string; \<open>None\<close> is its ValueError.
  \<^item> \<open>float_str\<close>: \<^verbatim>\<open>str\<close> of a float; \<open>container_str\<close>: \<^verbatim>\<open>str\<close> of a list or a dict.
\<close>

record env =
  ip_address :: "string \<Rightarrow> ip_family option"
  traceroute :: "nat \<Rightarrow> string \<Rightarrow> int \<Rightarrow> py_error + (string \<times> string) list"
  traceroute6 :: "nat \<Rightarrow> string \<Rightarrow> int \<Rightarrow> py_error + (string \<times> string) list"
  urlopen_json :: "nat \<Rightarrow> string \<Rightarrow> py_error + json"
  gethostbyaddr :: "nat \<Rightarrow> string \<Rightarrow> py_error + string"
  py_float :: "string \<Rightarrow> real option"
  float_str :: "real \<Rightarrow> string"
  container_str :: "json \<Rightarrow> string"

datatype level = ERROR | WARNING | INFO

text \<open>
  A log record keeps the message's fixed part as a constructor and its variable parts as
  arguments; the text of the caught exception is represented by the exception.
\<close>

datatype log_record =
    Unable_to_load_cache py_error
  | Unable_to_write_to_cache py_error
  | Unable_to_determine_location string py_error
  | Route_to string "(string \<times> json \<times> json) list"
  | Failed_to_get_hostname string py_error

text \<open>
  The state is the \<^verbatim>\<open>Trace\<close> object (\<open>ip_locations\<close>, in insertion order, and
  \<open>blacklisted_ips\<close>) together with what the module changes outside of it: the cache
  file \<^verbatim>\<open>ip_lat_lon_cache.csv\<close> (\<open>None\<close>: no such file) and whether \<^verbatim>\<open>open\<close> succeeds on it,
  the addresses sent to the geolocation service so far, the number of probes made so
  far, and the log.
\<close>

record state =
  ip_locations :: "(string \<times> json \<times> json) list"
  blacklisted_ips :: "string set"
  cache_content :: "string option"
  cache_readable :: bool
  cache_writable :: bool
  lookups :: "string list"
  probes :: nat
  logged :: "(level \<times> log_record) list"

definition logging :: "level \<Rightarrow> log_record \<Rightarrow> state \<Rightarrow> state" where
  "logging lv r st = st\<lparr>logged := logged st @ [(lv, r)]\<rparr>"

text \<open>\<^verbatim>\<open>Trace()\<close>: a new object beside the same file, network and log.\<close>

definition Trace_init :: "state \<Rightarrow> state" where
  "Trace_init st = st\<lparr>ip_locations := [], blacklisted_ips := {}\<rparr>"

section \<open>Strings\<close>

text \<open>\<^verbatim>\<open>str\<close> of an int.\<close>

definition digit_char :: "nat \<Rightarrow> char" where
  "digit_char d = ''0123456789'' ! d"

function str_nat :: "nat \<Rightarrow> string" where
  "str_nat n = (if n < 10 then [digit_char n] else str_nat (n div 10) @ [digit_char (n mod 10)])"
  by pat_completeness auto
termination
  by (relation "measure id") auto

declare str_nat.simps [simp del]

definition str_int :: "int \<Rightarrow> string" where
  "str_int i = (if i < 0 then CHR ''-'' # str_nat (nat (- i)) else str_nat (nat i))"

text \<open>
  The number that a string of decimal digits writes; a digit counts as its place in
  \<^verbatim>\<open>0123456789\<close>. It is used to say which number a hop label carries.
\<close>

definition digit_value :: "char \<Rightarrow> nat" where
  "digit_value c = length (takeWhile (\<lambda>d. d \<noteq> c) ''0123456789'')"

definition decimal_value :: "string \<Rightarrow> nat" where
  "decimal_value s = foldl (\<lambda>a c. 10 * a + digit_value c) 0 s"

text \<open>What an f-string puts for \<^verbatim>\<open>{v}\<close>.\<close>

definition py_str :: "env \<Rightarrow> json \<Rightarrow> string" where
  "py_str e v =
     (case v of
        JNull \<Rightarrow> ''None''
      | JBool b \<Rightarrow> (if b then ''True'' else ''False'')
      | JInt i \<Rightarrow> str_int i
      | JFloat x \<Rightarrow> float_str e x
      | JStr s \<Rightarrow> s
      | JArr xs \<Rightarrow> container_str e v
      | JObj kvs \<Rightarrow> container_str e v)"

text \<open>\<^verbatim>\<open>s.split(sep)\<close> for a separator of one character: never the empty list.\<close>

fun py_split :: "char \<Rightarrow> string \<Rightarrow> string list" where
  "py_split sep [] = [[]]"
| "py_split sep (c # cs) =
     (if c = sep then [] # py_split sep cs
      else (case py_split sep cs of [] \<Rightarrow> [[c]] | l # ls \<Rightarrow> (c # l) # ls))"

text \<open>
  A file opened for reading in text mode translates \<^verbatim>\<open>\r\n\<close> and \<^verbatim>\<open>\r\<close> to \<^verbatim>\<open>\n\<close>;
  \<^verbatim>\<open>readline\<close> and \<^verbatim>\<open>readlines\<close> cut after each \<^verbatim>\<open>\n\<close> and keep it. Writing is modelled as on
  POSIX, where \<^verbatim>\<open>\n\<close> is written as it is.
\<close>

fun universal_newlines :: "string \<Rightarrow> string" where
  "universal_newlines [] = []"
| "universal_newlines [c] = [if c = CR then LF else c]"
| "universal_newlines (c # d # ds) =
     (if c = CR \<and> d = LF then LF # universal_newlines ds
      else (if c = CR then LF else c) # universal_newlines (d # ds))"

fun split_lines :: "string \<Rightarrow> string list" where
  "split_lines [] = []"
| "split_lines (c # cs) =
     (if c = LF then [c] # split_lines cs
      else (case split_lines cs of [] \<Rightarrow> [[c]] | l # ls \<Rightarrow> (c # l) # ls))"

text \<open>\<^verbatim>\<open>t in s\<close> for two strings.\<close>

fun is_substring :: "string \<Rightarrow> string \<Rightarrow> bool" where
  "is_substring t [] = (t = [])"
| "is_substring t (c # cs) = (take (length t) (c # cs) = t \<or> is_substring t cs)"

section \<open>The cache file\<close>

definition cache_header :: string where
  "cache_header = ''ip,latitude,longitude'' @ [LF]"

text \<open>One turn of the loop of \<^verbatim>\<open>read_from_file\<close>: unpack the three fields, convert, store.\<close>

definition read_line ::
  "env \<Rightarrow> string \<Rightarrow> (string \<times> json \<times> json) list \<Rightarrow> py_error + (string \<times> json \<times> json) list" where
  "read_line e line locs =
     (case py_split CHR '','' line of
        [ip, lat, lon] \<Rightarrow>
          (case py_float e lat of
             None \<Rightarrow> Inl ValueError
           | Some la \<Rightarrow>
               (case py_float e lon of
                  None \<Rightarrow> Inl ValueError
                | Some lo \<Rightarrow> Inr (AList.update ip (JFloat la, JFloat lo) locs)))
      | _ \<Rightarrow> Inl ValueError)"

text \<open>
  The loop over \<^verbatim>\<open>cache.readlines()\<close>. The dictionary is changed in place, so when a line
  raises, the result carries the exception and the dictionary as it is by then.
\<close>

fun read_lines ::
  "env \<Rightarrow> string list \<Rightarrow> (string \<times> json \<times> json) list
     \<Rightarrow> py_error option \<times> (string \<times> json \<times> json) list" where
  "read_lines e [] locs = (None, locs)"
| "read_lines e (line # rest) locs =
     (case read_line e line locs of
        Inl err \<Rightarrow> (Some err, locs)
      | Inr locs' \<Rightarrow> read_lines e rest locs')"

definition read_from_file :: "env \<Rightarrow> state \<Rightarrow> state" where
  "read_from_file e st =
     (case cache_content st of
        None \<Rightarrow> st
      | Some bytes \<Rightarrow>
          if \<not> cache_readable st then logging ERROR (Unable_to_load_cache OSError) st
          else
            (case read_lines e (drop 1 (split_lines (universal_newlines bytes))) (ip_locations st) of
               (None, locs) \<Rightarrow> st\<lparr>ip_locations := locs\<rparr>
             | (Some err, locs) \<Rightarrow>
                 logging ERROR (Unable_to_load_cache err) (st\<lparr>ip_locations := locs\<rparr>)))"

text \<open>
  \<^verbatim>\<open>write_to_file\<close>: when \<^verbatim>\<open>open\<close> raises, the file stays as it is and the error is logged;
  otherwise the file is replaced by the header and one row per entry, in the order of
  the dictionary. A write that fails after the file was opened is not modelled.
\<close>

definition cache_row :: "env \<Rightarrow> string \<times> json \<times> json \<Rightarrow> string" where
  "cache_row e item =
     (case item of (ip, lat, lon) \<Rightarrow>
        ip @ '', '' @ py_str e lat @ '', '' @ py_str e lon @ [LF])"

definition write_to_file :: "env \<Rightarrow> state \<Rightarrow> state" where
  "write_to_file e st =
     (if \<not> cache_writable st then logging ERROR (Unable_to_write_to_cache OSError) st
      else st\<lparr>cache_content := Some (cache_header @ concat (map (cache_row e) (ip_locations st)))\<rparr>)"

section \<open>Resolving an address\<close>

text \<open>\<^verbatim>\<open>key in json_data\<close> and \<^verbatim>\<open>json_data[key]\<close> for a string key, on any JSON value.\<close>

definition py_contains :: "string \<Rightarrow> json \<Rightarrow> py_error + bool" where
  "py_contains k v =
     (case v of
        JObj kvs \<Rightarrow> Inr (map_of kvs k \<noteq> None)
      | JArr xs \<Rightarrow> Inr (JStr k \<in> set xs)
      | JStr s \<Rightarrow> Inr (is_substring k s)
      | _ \<Rightarrow> Inl TypeError)"

definition py_getitem :: "json \<Rightarrow> string \<Rightarrow> py_error + json" where
  "py_getitem v k =
     (case v of
        JObj kvs \<Rightarrow> (case map_of kvs k of None \<Rightarrow> Inl KeyError | Some x \<Rightarrow> Inr x)
      | _ \<Rightarrow> Inl TypeError)"

datatype lookup_outcome = Not_found | Found json json

text \<open>The body of the \<^verbatim>\<open>with\<close> block of \<^verbatim>\<open>get_lat_lon\<close>, after \<^verbatim>\<open>json.loads\<close>.\<close>

definition read_response :: "json \<Rightarrow> py_error + lookup_outcome" where
  "read_response json_data =
     (case py_contains ''latitude'' json_data of
        Inl err \<Rightarrow> Inl err
      | Inr has_lat \<Rightarrow>
          if \<not> has_lat then Inr Not_found
          else
            (case py_contains ''longitude'' json_data of
               Inl err \<Rightarrow> Inl err
             | Inr has_lon \<Rightarrow>
                 if \<not> has_lon then Inr Not_found
                 else
                   (case py_getitem json_data ''latitude'' of
                      Inl err \<Rightarrow> Inl err
                    | Inr lat \<Rightarrow>
                        (case py_getitem json_data ''longitude'' of
                           Inl err \<Rightarrow> Inl err
                         | Inr lon \<Rightarrow>
                             if lat = JStr ''Not found'' \<or> lon = JStr ''Not found''
                                \<or> lat = JNull \<or> lon = JNull
                             then Inr Not_found
                             else Inr (Found lat lon)))))"

definition get_lat_lon :: "env \<Rightarrow> string \<Rightarrow> state \<Rightarrow> (json \<times> json) option \<times> state" where
  "get_lat_lon e ip_addr st =
     (if ip_addr \<in> blacklisted_ips st then (None, st)
      else
        (case map_of (ip_locations st) ip_addr of
           Some c \<Rightarrow> (Some c, st)
         | None \<Rightarrow>
             (let st1 = st\<lparr>lookups := lookups st @ [ip_addr]\<rparr> in
              case urlopen_json e (length (lookups st)) ip_addr of
                Inl err \<Rightarrow> (None, logging WARNING (Unable_to_determine_location ip_addr err) st1)
              | Inr json_data \<Rightarrow>
                  (case read_response json_data of
                     Inl err \<Rightarrow>
                       (None, logging WARNING (Unable_to_determine_location ip_addr err) st1)
                   | Inr Not_found \<Rightarrow>
                       (None, st1\<lparr>blacklisted_ips := insert ip_addr (blacklisted_ips st1)\<rparr>)
                   | Inr (Found lat lon) \<Rightarrow>
                       (Some (lat, lon),
                        st1\<lparr>ip_locations := AList.update ip_addr (lat, lon) (ip_locations st1)\<rparr>)))))"

section \<open>Tracing a route\<close>

text \<open>The local variables of the loop of \<^verbatim>\<open>trace\<close>.\<close>

record hops =
  lats :: "json list"
  lons :: "json list"
  labels :: "string list"
  received :: "string set"
  msg :: "(string \<times> json \<times> json) list"
  count :: int

definition no_hops :: hops where
  "no_hops = \<lparr>lats = [], lons = [], labels = [], received = {}, msg = [], count = 1\<rparr>"

text \<open>The label \<^verbatim>\<open>f'hop {count}: {who}'\<close>.\<close>

definition hop_label :: "int \<Rightarrow> string \<Rightarrow> string" where
  "hop_label n who = ''hop '' @ str_int n @ '': '' @ who"

text \<open>The loop \<^verbatim>\<open>for sent_ip, received_ip in ans.res\<close>; a reply is (\<^verbatim>\<open>sent_ip.dst\<close>, \<^verbatim>\<open>received_ip.src\<close>).\<close>

fun hop_loop :: "env \<Rightarrow> bool \<Rightarrow> (string \<times> string) list \<Rightarrow> hops \<Rightarrow> state \<Rightarrow> hops \<times> state" where
  "hop_loop e display_name [] h st = (h, st)"
| "hop_loop e display_name ((dst, src) # rest) h st =
     (case get_lat_lon e src st of
        (None, st') \<Rightarrow> hop_loop e display_name rest h st'
      | (Some (lat, lon), st') \<Rightarrow>
          hop_loop e display_name rest
            (h\<lparr>lats := lats h @ [lat],
               lons := lons h @ [lon],
               labels := labels h @ [hop_label (count h) (if display_name then src else [])],
               msg := msg h @ [(dst, lat, lon)],
               received := insert src (received h),
               count := count h + 1\<rparr>)
            st')"

text \<open>The block \<^verbatim>\<open>if ip not in received\<close>.\<close>

definition last_hop :: "env \<Rightarrow> string \<Rightarrow> hops \<Rightarrow> state \<Rightarrow> hops \<times> state" where
  "last_hop e ip h st =
     (if ip \<notin> received h then
        (case get_lat_lon e ip st of
           (None, st') \<Rightarrow> (h, st')
         | (Some (lat, lon), st') \<Rightarrow>
             (h\<lparr>lats := lats h @ [lat],
                lons := lons h @ [lon],
                labels := labels h @ [hop_label (count h) ip]\<rparr>, st'))
      else (h, st))"

text \<open>The block \<^verbatim>\<open>if display_name\<close>; \<open>n\<close> numbers the probe of this call.\<close>

definition trace_name :: "env \<Rightarrow> nat \<Rightarrow> string \<Rightarrow> bool \<Rightarrow> state \<Rightarrow> string \<times> state" where
  "trace_name e n ip display_name st =
     (if display_name then
        (case gethostbyaddr e n ip of
           Inr name \<Rightarrow> ((name @ '' | '') @ '' '' @ ip @ ''<br>'', st)
         | Inl err \<Rightarrow> ([] @ '' '' @ ip @ ''<br>'', logging WARNING (Failed_to_get_hostname ip err) st))
      else ([], st))"

text \<open>
  \<^verbatim>\<open>int(math.log(byte_count)) / 2\<close>: \<^verbatim>\<open>math.log\<close> raises ValueError (math domain error)
  unless its argument is positive, \<^verbatim>\<open>int\<close> truncates towards zero, \<^verbatim>\<open>/\<close> is true division.
\<close>

definition math_log :: "int \<Rightarrow> py_error + real" where
  "math_log n = (if n \<le> 0 then Inl ValueError else Inr (ln (real_of_int n)))"

definition py_int :: "real \<Rightarrow> int" where
  "py_int x = (if 0 \<le> x then \<lfloor>x\<rfloor> else \<lceil>x\<rceil>)"

definition line_width :: "int \<Rightarrow> py_error + real" where
  "line_width byte_count =
     (case math_log byte_count of
        Inl err \<Rightarrow> Inl err
      | Inr x \<Rightarrow> Inr (real_of_int (py_int x) / 2))"

definition marker_size :: int where
  "marker_size = 10"

definition max_ttl_traceroute :: int where
  "max_ttl_traceroute = 32"

text \<open>The arguments given to \<^verbatim>\<open>go.Scattergeo\<close>.\<close>

record scattergeo =
  sg_mode :: string
  sg_lon :: "json list"
  sg_lat :: "json list"
  sg_text :: "string list"
  sg_name :: string
  sg_line_width :: real
  sg_marker_size :: int
  sg_marker_symbol :: string

text \<open>
  \<^verbatim>\<open>trace\<close> returns the figure or raises; the state is returned in both cases, since what
  was cached, blacklisted and logged before the exception stays so.
\<close>

definition trace ::
  "env \<Rightarrow> string \<Rightarrow> int \<Rightarrow> int \<Rightarrow> int \<Rightarrow> bool \<Rightarrow> state \<Rightarrow> (py_error + scattergeo) \<times> state" where
  "trace e ip hits byte_count timeout display_name st =
     (case ip_address e ip of
        None \<Rightarrow> (Inl ValueError, st)
      | Some family \<Rightarrow>
          (let n = probes st;
               st0 = st\<lparr>probes := Suc n\<rparr> in
           case (if family = IPv6Address then traceroute6 e n ip timeout
                 else traceroute e n ip timeout) of
             Inl err \<Rightarrow> (Inl err, st0)
           | Inr res \<Rightarrow>
               (case hop_loop e display_name res no_hops st0 of
                  (h1, st1) \<Rightarrow>
                    (case last_hop e ip h1 st1 of
                       (h2, st2) \<Rightarrow>
                         (let st3 = logging INFO (Route_to ip (msg h2)) st2;
                              mode = (if length (lats h2) = 1 then ''markers''
                                      else ''markers+lines'')
                          in case trace_name e n ip display_name st3 of
                               (name, st4) \<Rightarrow>
                                 (case line_width byte_count of
                                    Inl err \<Rightarrow> (Inl err, st4)
                                  | Inr width \<Rightarrow>
                                      (Inr \<lparr>sg_mode = mode,
                                            sg_lon = lons h2,
                                            sg_lat = lats h2,
                                            sg_text = labels h2,
                                            sg_name = name @ str_int hits @ '' packets, ''
                                                        @ str_int byte_count @ '' bytes'',
                                            sg_line_width = width,
                                            sg_marker_size = marker_size,
                                            sg_marker_symbol = ''square''\<rparr>,
                                       st4)))))))"

section \<open>Runs\<close>

text \<open>A run is a sequence of calls on one \<^verbatim>\<open>Trace\<close> object; the results are dropped.\<close>

datatype op =
    Read_from_file
  | Write_to_file
  | Get_lat_lon string
  | Trace_route string int int int bool

fun exec_op :: "env \<Rightarrow> op \<Rightarrow> state \<Rightarrow> state" where
  "exec_op e Read_from_file st = read_from_file e st"
| "exec_op e Write_to_file st = write_to_file e st"
| "exec_op e (Get_lat_lon a) st = snd (get_lat_lon e a st)"
| "exec_op e (Trace_route ip hits byte_count timeout display_name) st =
     snd (trace e ip hits byte_count timeout display_name st)"

fun run :: "env \<Rightarrow> op list \<Rightarrow> state \<Rightarrow> state" where
  "run e [] st = st"
| "run e (x # xs) st = run e xs (exec_op e x st)"


text \<open>
  The replies that resolve, in reply order: one \<^verbatim>\<open>get_lat_lon\<close> per reply, each on the
  state the one before left; a resolved reply is kept as (\<^verbatim>\<open>sent.dst\<close>, \<^verbatim>\<open>received.src\<close>,
  latitude, longitude).
\<close>

fun resolved_replies ::
  "env \<Rightarrow> (string \<times> string) list \<Rightarrow> state \<Rightarrow> (string \<times> string \<times> json \<times> json) list \<times> state" where
  "resolved_replies e [] st = ([], st)"
| "resolved_replies e ((dst, src) # rest) st =
     (case get_lat_lon e src st of
        (r, st') \<Rightarrow>
          (case resolved_replies e rest st' of
             (hs, st'') \<Rightarrow>
               ((case r of None \<Rightarrow> [] | Some (lat, lon) \<Rightarrow> [(dst, src, lat, lon)]) @ hs, st'')))"

definition reply_src :: "string \<times> string \<times> json \<times> json \<Rightarrow> string" where
  "reply_src r = (case r of (dst, src, lat, lon) \<Rightarrow> src)"

definition reply_lat :: "string \<times> string \<times> json \<times> json \<Rightarrow> json" where
  "reply_lat r = (case r of (dst, src, lat, lon) \<Rightarrow> lat)"

definition reply_lon :: "string \<times> string \<times> json \<times> json \<Rightarrow> json" where
  "reply_lon r = (case r of (dst, src, lat, lon) \<Rightarrow> lon)"


text \<open>What the loop of \<^verbatim>\<open>trace\<close> leaves in its variables, given the resolved replies.\<close>

definition loop_result :: "bool \<Rightarrow> (string \<times> string \<times> json \<times> json) list \<Rightarrow> hops" where
  "loop_result dn hs =
     \<lparr>lats = map reply_lat hs,
      lons = map reply_lon hs,
      labels = map (\<lambda>i. hop_label (1 + int i) (if dn then reply_src (hs ! i) else []))
            [0..<length hs],
      received = reply_src ` set hs,
      msg = map (\<lambda>(dst, src, lat, lon). (dst, lat, lon)) hs,
      count = 1 + int (length hs)\<rparr>"

text \<open>
  A response that reports "not found": a field is missing, or one of the two is
  \<^verbatim>\<open>null\<close> or the string \<^verbatim>\<open>Not found\<close>.
\<close>

definition reports_not_found :: "(string \<times> json) list \<Rightarrow> bool" where
  "reports_not_found kvs =
     (case (map_of kvs ''latitude'', map_of kvs ''longitude'') of
        (Some lat, Some lon) \<Rightarrow>
          lat = JStr ''Not found'' \<or> lon = JStr ''Not found'' \<or> lat = JNull \<or> lon = JNull
      | _ \<Rightarrow> True)"

text \<open>
  What the file format can carry: an address without comma or line break, and two floats
  whose text has neither and is read back by \<^verbatim>\<open>float\<close> as the same float, also behind the
  blank that \<^verbatim>\<open>write_to_file\<close> puts after each comma and before the end of the line.
\<close>

definition plain :: "string \<Rightarrow> bool" where
  "plain s = (CHR '','' \<notin> set s \<and> LF \<notin> set s \<and> CR \<notin> set s)"

definition reads_back :: "env \<Rightarrow> real \<Rightarrow> bool" where
  "reads_back e x =
     (plain (float_str e x) \<and>
      py_float e ('' '' @ float_str e x) = Some x \<and>
      py_float e ('' '' @ float_str e x @ [LF]) = Some x)"

definition storable :: "env \<Rightarrow> string \<times> json \<times> json \<Rightarrow> bool" where
  "storable e item =
     (case item of
        (ip, JFloat x, JFloat y) \<Rightarrow> plain ip \<and> reads_back e x \<and> reads_back e y
      | _ \<Rightarrow> False)"

section \<open>An example network\<close>

text \<open>
  The examples run in a small world: \<^verbatim>\<open>10.0.0.1\<close> and \<^verbatim>\<open>10.0.0.3\<close> have coordinates,
  \<^verbatim>\<open>10.0.0.2\<close> is answered with two nulls, \<^verbatim>\<open>10.0.0.7\<close> with two strings that are not
  numbers, and every other lookup fails in transport. A probe towards \<^verbatim>\<open>10.0.0.3\<close> is
  answered by \<^verbatim>\<open>10.0.0.1\<close>, \<^verbatim>\<open>10.0.0.2\<close> and \<^verbatim>\<open>10.0.0.3\<close>, one towards \<^verbatim>\<open>10.0.0.9\<close> by
  \<^verbatim>\<open>10.0.0.9\<close> itself, any other by nobody. The float functions are given on the two
  numbers that occur.
\<close>

definition ex_ip_address :: "string \<Rightarrow> ip_family option" where
  "ex_ip_address ip =
     (if ip = ''10.0.0.1'' \<or> ip = ''10.0.0.2'' \<or> ip = ''10.0.0.3'' \<or> ip = ''10.0.0.7''
         \<or> ip = ''10.0.0.9''
      then Some IPv4Address else None)"

definition ex_traceroute :: "nat \<Rightarrow> string \<Rightarrow> int \<Rightarrow> py_error + (string \<times> string) list" where
  "ex_traceroute n ip timeout =
     (if ip = ''10.0.0.3'' then Inr [(ip, ''10.0.0.1''), (ip, ''10.0.0.2''), (ip, ''10.0.0.3'')]
      else if ip = ''10.0.0.9'' then Inr [(ip, ''10.0.0.9'')]
      else Inr [])"

definition ex_urlopen_json :: "nat \<Rightarrow> string \<Rightarrow> py_error + json" where
  "ex_urlopen_json n a =
     (if a = ''10.0.0.1'' then Inr (JObj [(''latitude'', JFloat 40), (''longitude'', JFloat (- 74))])
      else if a = ''10.0.0.2'' then Inr (JObj [(''latitude'', JNull), (''longitude'', JNull)])
      else if a = ''10.0.0.3'' then Inr (JObj [(''latitude'', JFloat 52), (''longitude'', JFloat 13)])
      else if a = ''10.0.0.7''
        then Inr (JObj [(''latitude'', JStr ''abc''), (''longitude'', JStr ''def'')])
      else Inl OtherException)"

definition ex_float :: "string \<Rightarrow> real option" where
  "ex_float s =
     (let t = rev (dropWhile (\<lambda>c. c = CHR '' '' \<or> c = LF) (rev (dropWhile (\<lambda>c. c = CHR '' '' \<or> c = LF) s)))
      in if t = ''40.0'' then Some 40 else if t = ''-74.0'' then Some (- 74) else None)"

definition ex_float_str :: "real \<Rightarrow> string" where
  "ex_float_str x = (if x = 40 then ''40.0'' else if x = - 74 then ''-74.0'' else ''0.0'')"

definition ex_env :: env where
  "ex_env =
     \<lparr>ip_address = ex_ip_address,
      traceroute = ex_traceroute,
      traceroute6 = (\<lambda>n ip timeout. Inl OSError),
      urlopen_json = ex_urlopen_json,
      gethostbyaddr = (\<lambda>n ip. Inl OSError),
      py_float = ex_float,
      float_str = ex_float_str,
      container_str = (\<lambda>v. ''[]'')\<rparr>"

text \<open>
  The same world with a route that ends before the destination: the probe towards
  \<^verbatim>\<open>10.0.0.3\<close> is answered by \<^verbatim>\<open>10.0.0.1\<close>, \<^verbatim>\<open>10.0.0.2\<close> and \<^verbatim>\<open>10.0.0.1\<close> again.
\<close>

definition ex_traceroute_detour :: "nat \<Rightarrow> string \<Rightarrow> int \<Rightarrow> py_error + (string \<times> string) list" where
  "ex_traceroute_detour n ip timeout =
     (if ip = ''10.0.0.3'' then Inr [(ip, ''10.0.0.1''), (ip, ''10.0.0.2''), (ip, ''10.0.0.1'')]
      else Inr [])"

definition ex_env_detour :: env where
  "ex_env_detour = ex_env\<lparr>traceroute := ex_traceroute_detour\<rparr>"

definition ex_state :: state where
  "ex_state =
     \<lparr>ip_locations = [], blacklisted_ips = {}, cache_content = None, cache_readable = True,
      cache_writable = True, lookups = [], probes = 0, logged = []\<rparr>"

text \<open>The example state beside a cache file with the given content.\<close>

definition ex_state_with_file :: "string \<Rightarrow> state" where
  "ex_state_with_file bytes = ex_state\<lparr>cache_content := Some bytes\<rparr>"

section \<open>Auxiliary facts\<close>

subsection \<open>What every call of the resolver keeps\<close>

lemma hop_loop_preserves:
  assumes step: "\<And>a s. P s \<Longrightarrow> P (snd (get_lat_lon e a s))"
  shows "P st \<Longrightarrow> P (snd (hop_loop e dn res h st))"
proof (induction res arbitrary: h st)
  case Nil
  then show ?case by simp
next
  case (Cons r res)
  obtain dst src where r: "r = (dst, src)" by (cases r)
  obtain v st' where g: "get_lat_lon e src st = (v, st')" by (cases "get_lat_lon e src st")
  from step [OF Cons.prems, of src] g have "P st'" by simp
  then show ?case using Cons.IH r g
    by (cases v) (auto split: prod.splits)
qed

lemma last_hop_preserves:
  assumes step: "\<And>a s. P s \<Longrightarrow> P (snd (get_lat_lon e a s))"
  shows "P st \<Longrightarrow> P (snd (last_hop e ip h st))"
  using step [of st ip]
  by (auto simp: last_hop_def split: prod.splits option.splits)

lemma trace_name_preserves:
  assumes lg: "\<And>s l. P s \<Longrightarrow> P (s\<lparr>logged := l\<rparr>)"
  shows "P st \<Longrightarrow> P (snd (trace_name e n ip dn st))"
  using lg [of st]
  by (auto simp: trace_name_def logging_def split: sum.splits)

lemma trace_preserves:
  assumes step: "\<And>a s. P s \<Longrightarrow> P (snd (get_lat_lon e a s))"
    and pr: "\<And>s n. P s \<Longrightarrow> P (s\<lparr>probes := n\<rparr>)"
    and lg: "\<And>s l. P s \<Longrightarrow> P (s\<lparr>logged := l\<rparr>)"
  shows "P st \<Longrightarrow> P (snd (trace e ip hits bc t dn st))"
proof -
  assume p: "P st"
  show ?thesis
  proof (cases "ip_address e ip")
    case None
    then show ?thesis using p by (simp add: trace_def)
  next
    case (Some fam)
    define st0 where "st0 = st\<lparr>probes := Suc (probes st)\<rparr>"
    have p0: "P st0" unfolding st0_def by (rule pr [OF p])
    show ?thesis
    proof (cases "if fam = IPv6Address then traceroute6 e (probes st) ip t else traceroute e (probes st) ip t")
      case (Inl err)
      then show ?thesis using Some p0 by (simp add: trace_def st0_def Let_def)
    next
      case (Inr res)
      obtain h1 st1 where l: "hop_loop e dn res no_hops st0 = (h1, st1)" by (cases "hop_loop e dn res no_hops st0")
      obtain h2 st2 where m: "last_hop e ip h1 st1 = (h2, st2)" by (cases "last_hop e ip h1 st1")
      have p1: "P st1" using hop_loop_preserves [of P e st0 dn res no_hops, OF step p0] l by simp
      have p2: "P st2" using last_hop_preserves [of P e st1 ip h1, OF step p1] m by simp
      have p3: "P (logging INFO (Route_to ip (msg h2)) st2)" unfolding logging_def by (rule lg [OF p2])
      have p4: "P (snd (trace_name e (probes st) ip dn (logging INFO (Route_to ip (msg h2)) st2)))"
        by (rule trace_name_preserves [of P, OF lg p3])
      show ?thesis using Some Inr l m p4
        by (auto simp add: trace_def Let_def st0_def split: prod.splits sum.splits)
    qed
  qed
qed

lemma run_preserves:
  assumes "\<And>x s. x \<in> set ops \<Longrightarrow> P s \<Longrightarrow> P (exec_op e x s)"
  shows "P st \<Longrightarrow> P (run e ops st)"
  using assms by (induction ops arbitrary: st) auto

lemma run_append: "run e (xs @ ys) st = run e ys (run e xs st)"
  by (induction xs arbitrary: st) auto

subsection \<open>The effect of one lookup\<close>

lemma get_lat_lon_blacklisted:
  "a \<in> blacklisted_ips st \<Longrightarrow> get_lat_lon e a st = (None, st)"
  by (simp add: get_lat_lon_def)

lemma get_lat_lon_cached:
  "a \<notin> blacklisted_ips st \<Longrightarrow> map_of (ip_locations st) a = Some c \<Longrightarrow>
   get_lat_lon e a st = (Some c, st)"
  by (simp add: get_lat_lon_def)

lemma get_lat_lon_Some:
  "get_lat_lon e a st = (Some c, st') \<Longrightarrow>
   a \<notin> blacklisted_ips st' \<and> map_of (ip_locations st') a = Some c"
  by (auto simp: get_lat_lon_def Let_def logging_def update_conv'
      split: if_splits option.splits sum.splits lookup_outcome.splits)

text \<open>What a call of get_lat_lon may change.\<close>

lemma get_lat_lon_effect:
  "snd (get_lat_lon e b st) = st \<or>
   (b \<notin> blacklisted_ips st \<and> map_of (ip_locations st) b = None \<and>
    ((\<exists>l. snd (get_lat_lon e b st) = st\<lparr>lookups := lookups st @ [b], logged := l\<rparr>) \<or>
     snd (get_lat_lon e b st) =
       st\<lparr>lookups := lookups st @ [b], blacklisted_ips := insert b (blacklisted_ips st)\<rparr> \<or>
     (\<exists>c. snd (get_lat_lon e b st) =
       st\<lparr>lookups := lookups st @ [b], ip_locations := AList.update b c (ip_locations st)\<rparr>)))"
  by (auto simp: get_lat_lon_def Let_def logging_def
      split: if_splits option.splits sum.splits lookup_outcome.splits)

lemma keys_map_of: "(a \<in> fst ` set al) = (map_of al a \<noteq> None)"
  by (simp add: map_of_eq_None_iff)

lemma get_lat_lon_keeps_cached:
  assumes "map_of (ip_locations st) a = Some c" "a \<notin> blacklisted_ips st"
    "count_list (lookups st) a = k"
  shows "map_of (ip_locations (snd (get_lat_lon e b st))) a = Some c \<and>
         a \<notin> blacklisted_ips (snd (get_lat_lon e b st)) \<and>
         count_list (lookups (snd (get_lat_lon e b st))) a = k"
  using get_lat_lon_effect [of e b st] assms
  by (auto simp: update_conv')

lemma get_lat_lon_keeps_blacklisted:
  assumes "a \<in> blacklisted_ips st" "count_list (lookups st) a = k"
  shows "a \<in> blacklisted_ips (snd (get_lat_lon e b st)) \<and>
         count_list (lookups (snd (get_lat_lon e b st))) a = k"
  using get_lat_lon_effect [of e b st] assms
  by auto

lemma get_lat_lon_keeps_settled:
  assumes "a \<in> blacklisted_ips st \<or> map_of (ip_locations st) a \<noteq> None"
    "count_list (lookups st) a = k"
  shows "(a \<in> blacklisted_ips (snd (get_lat_lon e b st)) \<or>
          map_of (ip_locations (snd (get_lat_lon e b st))) a \<noteq> None) \<and>
         count_list (lookups (snd (get_lat_lon e b st))) a = k"
  using get_lat_lon_effect [of e b st] assms
  by (auto simp: update_conv' split: if_splits)

lemma get_lat_lon_keeps_disjoint:
  assumes "\<forall>a. a \<in> blacklisted_ips st \<longrightarrow> map_of (ip_locations st) a = None"
  shows "\<forall>a. a \<in> blacklisted_ips (snd (get_lat_lon e b st)) \<longrightarrow>
           map_of (ip_locations (snd (get_lat_lon e b st))) a = None"
  using get_lat_lon_effect [of e b st] assms
  by (auto simp: update_conv')

subsection \<open>Loading and saving leave the rest alone\<close>

lemma read_line_grows:
  "read_line e line locs = Inr locs' \<Longrightarrow> map_of locs a \<noteq> None \<Longrightarrow> map_of locs' a \<noteq> None"
  by (auto simp: read_line_def update_conv' split: list.splits option.splits)

lemma read_lines_grows:
  "map_of locs a \<noteq> None \<Longrightarrow> map_of (snd (read_lines e ls locs)) a \<noteq> None"
proof (induction ls arbitrary: locs)
  case Nil
  then show ?case by simp
next
  case (Cons l ls)
  show ?case
  proof (cases "read_line e l locs")
    case (Inl err)
    then show ?thesis using Cons.prems by simp
  next
    case (Inr locs')
    from read_line_grows [OF Inr Cons.prems] have "map_of locs' a \<noteq> None" .
    from Cons.IH [OF this] Inr show ?thesis by simp
  qed
qed

lemma read_from_file_locations:
  "ip_locations (read_from_file e st) = ip_locations st \<or>
   (\<exists>bytes. cache_content st = Some bytes \<and> cache_readable st \<and>
      ip_locations (read_from_file e st) =
        snd (read_lines e (drop 1 (split_lines (universal_newlines bytes))) (ip_locations st)))"
  by (simp add: read_from_file_def logging_def split: option.splits prod.splits)

lemma read_from_file_frame:
  "blacklisted_ips (read_from_file e st) = blacklisted_ips st \<and>
   lookups (read_from_file e st) = lookups st"
  by (simp add: read_from_file_def logging_def split: option.splits prod.splits)

lemma read_from_file_grows:
  assumes "map_of (ip_locations st) a \<noteq> None"
  shows "map_of (ip_locations (read_from_file e st)) a \<noteq> None"
proof -
  from read_from_file_locations [of e st] show ?thesis
  proof
    assume "ip_locations (read_from_file e st) = ip_locations st"
    with assms show ?thesis by simp
  next
    assume "\<exists>bytes. cache_content st = Some bytes \<and> cache_readable st \<and>
      ip_locations (read_from_file e st) =
        snd (read_lines e (drop 1 (split_lines (universal_newlines bytes))) (ip_locations st))"
    then obtain bytes where "ip_locations (read_from_file e st) =
        snd (read_lines e (drop 1 (split_lines (universal_newlines bytes))) (ip_locations st))"
      by blast
    with read_lines_grows [OF assms] show ?thesis by simp
  qed
qed

lemma write_to_file_frame:
  "blacklisted_ips (write_to_file e st) = blacklisted_ips st \<and>
   lookups (write_to_file e st) = lookups st \<and>
   ip_locations (write_to_file e st) = ip_locations st"
  by (simp add: write_to_file_def logging_def)

lemma reads_keep_blacklist:
  "blacklisted_ips (run e (replicate n Read_from_file) st) = blacklisted_ips st"
  by (induction n arbitrary: st) (simp_all add: read_from_file_frame)

subsection \<open>Invariants of single operations\<close>

lemma exec_op_keeps_cached:
  assumes "x \<noteq> Read_from_file"
    and "map_of (ip_locations st) a = Some c \<and> a \<notin> blacklisted_ips st \<and>
         count_list (lookups st) a = k"
  shows "map_of (ip_locations (exec_op e x st)) a = Some c \<and>
         a \<notin> blacklisted_ips (exec_op e x st) \<and>
         count_list (lookups (exec_op e x st)) a = k"
proof (cases x)
  case Read_from_file
  with assms show ?thesis by simp
next
  case Write_to_file
  with assms write_to_file_frame [of e st] show ?thesis by simp
next
  case (Get_lat_lon b)
  with assms get_lat_lon_keeps_cached [of st a c k e b] show ?thesis by simp
next
  case (Trace_route ip hits bc t dn)
  have "(\<lambda>s. map_of (ip_locations s) a = Some c \<and> a \<notin> blacklisted_ips s \<and>
         count_list (lookups s) a = k) (snd (trace e ip hits bc t dn st))"
    by (rule trace_preserves) (use assms get_lat_lon_keeps_cached in auto)
  with Trace_route show ?thesis by simp
qed

lemma exec_op_keeps_blacklisted:
  assumes "a \<in> blacklisted_ips st \<and> count_list (lookups st) a = k"
  shows "a \<in> blacklisted_ips (exec_op e x st) \<and> count_list (lookups (exec_op e x st)) a = k"
proof (cases x)
  case Read_from_file
  with assms read_from_file_frame [of e st] show ?thesis by simp
next
  case Write_to_file
  with assms write_to_file_frame [of e st] show ?thesis by simp
next
  case (Get_lat_lon b)
  with assms get_lat_lon_keeps_blacklisted [of a st k e b] show ?thesis by simp
next
  case (Trace_route ip hits bc t dn)
  have "(\<lambda>s. a \<in> blacklisted_ips s \<and> count_list (lookups s) a = k)
          (snd (trace e ip hits bc t dn st))"
    by (rule trace_preserves) (use assms get_lat_lon_keeps_blacklisted in auto)
  with Trace_route show ?thesis by simp
qed

lemma exec_op_keeps_settled:
  assumes "(a \<in> blacklisted_ips st \<or> map_of (ip_locations st) a \<noteq> None) \<and>
           count_list (lookups st) a = k"
  shows "(a \<in> blacklisted_ips (exec_op e x st) \<or> map_of (ip_locations (exec_op e x st)) a \<noteq> None) \<and>
         count_list (lookups (exec_op e x st)) a = k"
proof (cases x)
  case Read_from_file
  with assms read_from_file_frame [of e st] read_from_file_grows [of st a e] show ?thesis by auto
next
  case Write_to_file
  with assms write_to_file_frame [of e st] show ?thesis by simp
next
  case (Get_lat_lon b)
  with assms get_lat_lon_keeps_settled [of a st k e b] show ?thesis by simp
next
  case (Trace_route ip hits bc t dn)
  have "(\<lambda>s. (a \<in> blacklisted_ips s \<or> map_of (ip_locations s) a \<noteq> None) \<and>
           count_list (lookups s) a = k) (snd (trace e ip hits bc t dn st))"
  proof (rule trace_preserves)
    show "\<And>b s. (a \<in> blacklisted_ips s \<or> map_of (ip_locations s) a \<noteq> None) \<and>
           count_list (lookups s) a = k \<Longrightarrow>
           (a \<in> blacklisted_ips (snd (get_lat_lon e b s)) \<or>
            map_of (ip_locations (snd (get_lat_lon e b s))) a \<noteq> None) \<and>
           count_list (lookups (snd (get_lat_lon e b s))) a = k"
      using get_lat_lon_keeps_settled by blast
  qed (use assms in auto)
  with Trace_route show ?thesis by simp
qed

lemma exec_op_keeps_disjoint:
  assumes "x \<noteq> Read_from_file"
    and "\<forall>a. a \<in> blacklisted_ips st \<longrightarrow> map_of (ip_locations st) a = None"
  shows "\<forall>a. a \<in> blacklisted_ips (exec_op e x st) \<longrightarrow>
           map_of (ip_locations (exec_op e x st)) a = None"
proof (cases x)
  case Read_from_file
  with assms show ?thesis by simp
next
  case Write_to_file
  with assms write_to_file_frame [of e st] show ?thesis by simp
next
  case (Get_lat_lon b)
  with get_lat_lon_keeps_disjoint [OF assms(2), of e b] show ?thesis by simp
next
  case (Trace_route ip hits bc t dn)
  have "(\<lambda>s. \<forall>a. a \<in> blacklisted_ips s \<longrightarrow> map_of (ip_locations s) a = None)
          (snd (trace e ip hits bc t dn st))"
  proof (rule trace_preserves)
    show "\<And>b s. \<forall>a. a \<in> blacklisted_ips s \<longrightarrow> map_of (ip_locations s) a = None \<Longrightarrow>
       \<forall>a. a \<in> blacklisted_ips (snd (get_lat_lon e b s)) \<longrightarrow>
           map_of (ip_locations (snd (get_lat_lon e b s))) a = None"
      by (rule get_lat_lon_keeps_disjoint)
  qed (use assms in auto)
  with Trace_route show ?thesis by simp
qed

subsection \<open>Reading the response\<close>

lemma read_response_not_found:
  "reports_not_found kvs \<Longrightarrow> read_response (JObj kvs) = Inr Not_found"
  by (auto simp: reports_not_found_def read_response_def py_contains_def py_getitem_def
      split: option.splits)

lemma read_response_Found:
  "(read_response j = Inr (Found lat lon)) =
   (py_getitem j ''latitude'' = Inr lat \<and> py_getitem j ''longitude'' = Inr lon \<and>
    lat \<noteq> JNull \<and> lat \<noteq> JStr ''Not found'' \<and> lon \<noteq> JNull \<and> lon \<noteq> JStr ''Not found'')"
  by (cases j)
    (auto simp: read_response_def py_contains_def py_getitem_def split: option.splits)

subsection \<open>Decimal numbers\<close>

lemma digit_value_digit_char: "d < 10 \<Longrightarrow> digit_value (digit_char d) = d"
proof -
  have "list_all (\<lambda>k. digit_value (digit_char k) = k) [0..<10]"
    by (simp add: upt_rec digit_value_def digit_char_def)
  moreover assume "d < 10"
  ultimately show ?thesis
    by (simp add: list_all_iff)
qed

lemma decimal_value_str_nat: "decimal_value (str_nat n) = n"
proof (induction n rule: str_nat.induct)
  case (1 n)
  show ?case
  proof (cases "n < 10")
    case True
    then show ?thesis
      by (simp add: str_nat.simps [of n] decimal_value_def digit_value_digit_char)
  next
    case False
    with "1" have "decimal_value (str_nat (n div 10)) = n div 10" by simp
    with False show ?thesis
      by (simp add: str_nat.simps [of n] decimal_value_def digit_value_digit_char)
  qed
qed

lemma decimal_value_str_int: "0 \<le> k \<Longrightarrow> int (decimal_value (str_int k)) = k"
  by (simp add: str_int_def decimal_value_str_nat)

subsection \<open>The loop of trace and the resolved replies\<close>

lemma hop_loop_resolved:
  "resolved_replies e res st = (hs, st') \<Longrightarrow>
   hop_loop e dn res h st =
     (h\<lparr>lats := lats h @ map reply_lat hs,
        lons := lons h @ map reply_lon hs,
        labels := labels h @
          map (\<lambda>i. hop_label (count h + int i) (if dn then reply_src (hs ! i) else []))
            [0..<length hs],
        msg := msg h @ map (\<lambda>(dst, src, lat, lon). (dst, lat, lon)) hs,
        received := received h \<union> reply_src ` set hs,
        count := count h + int (length hs)\<rparr>, st')"
proof (induction res arbitrary: h st hs st')
  case Nil
  then show ?case by auto
next
  case (Cons r res)
  obtain dst src where r: "r = (dst, src)" by (cases r)
  obtain v st1 where g: "get_lat_lon e src st = (v, st1)" by (cases "get_lat_lon e src st")
  obtain hs1 st2 where rr: "resolved_replies e res st1 = (hs1, st2)"
    by (cases "resolved_replies e res st1")
  show ?case
  proof (cases v)
    case None
    with Cons.prems r g rr have "hs = hs1" "st' = st2" by auto
    with Cons.IH [OF rr, of h] r g None show ?thesis by simp
  next
    case (Some c)
    obtain lat lon where c: "c = (lat, lon)" by (cases c)
    with Cons.prems r g rr Some have hs: "hs = (dst, src, lat, lon) # hs1" and "st' = st2" by auto
    then show ?thesis
      using Cons.IH [OF rr] r g Some c
      by (simp add: map_upt_Suc reply_lat_def reply_lon_def reply_src_def add.assoc
          del: upt_Suc)
  qed
qed

lemma hop_loop_no_hops:
  "resolved_replies e res st = (hs, st') \<Longrightarrow>
   hop_loop e dn res no_hops st = (loop_result dn hs, st')"
  by (simp add: hop_loop_resolved no_hops_def loop_result_def)

lemma trace_unfold:
  assumes "ip_address e ip = Some fam"
    and "(if fam = IPv6Address then traceroute6 e (probes st) ip t
          else traceroute e (probes st) ip t) = Inr res"
    and "resolved_replies e res (st\<lparr>probes := Suc (probes st)\<rparr>) = (hs, st1)"
    and "last_hop e ip (loop_result dn hs) st1 = (h2, st2)"
    and "trace_name e (probes st) ip dn (logging INFO (Route_to ip (msg h2)) st2) = (name, st4)"
  shows "trace e ip hits bc t dn st =
     (case line_width bc of
        Inl err \<Rightarrow> (Inl err, st4)
      | Inr width \<Rightarrow>
          (Inr \<lparr>sg_mode = (if length (lats h2) = 1 then ''markers'' else ''markers+lines''),
                sg_lon = lons h2, sg_lat = lats h2, sg_text = labels h2,
                sg_name = name @ str_int hits @ '' packets, '' @ str_int bc @ '' bytes'',
                sg_line_width = width, sg_marker_size = marker_size,
                sg_marker_symbol = ''square''\<rparr>, st4))"
  using assms hop_loop_no_hops [OF assms(3), of dn]
  by (simp add: trace_def Let_def)

lemma last_hop_seen:
  "ip \<in> received h \<Longrightarrow> last_hop e ip h st = (h, st)"
  by (simp add: last_hop_def)

lemma last_hop_unseen:
  "ip \<notin> received h \<Longrightarrow>
   last_hop e ip h st =
     (case fst (get_lat_lon e ip st) of
        None \<Rightarrow> h
      | Some (lat, lon) \<Rightarrow>
          h\<lparr>lats := lats h @ [lat], lons := lons h @ [lon],
            labels := labels h @ [hop_label (count h) ip]\<rparr>,
      snd (get_lat_lon e ip st))"
  by (simp add: last_hop_def split: prod.splits option.splits)

lemma trace_name_frame:
  "ip_locations (snd (trace_name e n ip dn st)) = ip_locations st \<and>
   blacklisted_ips (snd (trace_name e n ip dn st)) = blacklisted_ips st \<and>
   lookups (snd (trace_name e n ip dn st)) = lookups st"
  by (simp add: trace_name_def logging_def split: sum.splits)

text \<open>The figure and the state of a call that returns, in terms of the resolved replies.\<close>

lemma trace_returns:
  assumes "trace e ip hits bc t dn st = (Inr fig, st')"
    and "ip_address e ip = Some fam"
    and "(if fam = IPv6Address then traceroute6 e (probes st) ip t
          else traceroute e (probes st) ip t) = Inr res"
    and "resolved_replies e res (st\<lparr>probes := Suc (probes st)\<rparr>) = (hs, st1)"
    and "last_hop e ip (loop_result dn hs) st1 = (h2, st2)"
  shows "sg_text fig = labels h2 \<and> sg_lat fig = lats h2 \<and> sg_lon fig = lons h2 \<and>
         sg_mode fig = (if length (lats h2) = 1 then ''markers'' else ''markers+lines'') \<and>
         ip_locations st' = ip_locations st2 \<and> blacklisted_ips st' = blacklisted_ips st2 \<and>
         lookups st' = lookups st2"
proof -
  obtain name st4 where
    n: "trace_name e (probes st) ip dn (logging INFO (Route_to ip (msg h2)) st2) = (name, st4)"
    by (cases "trace_name e (probes st) ip dn (logging INFO (Route_to ip (msg h2)) st2)")
  from trace_name_frame [of e "probes st" ip dn "logging INFO (Route_to ip (msg h2)) st2"] n
  have fr: "ip_locations st4 = ip_locations st2 \<and> blacklisted_ips st4 = blacklisted_ips st2 \<and>
      lookups st4 = lookups st2"
    by (simp add: logging_def)
  from trace_unfold [OF assms(2) assms(3) assms(4) assms(5) n, of hits bc] assms(1) fr
  show ?thesis
    by (cases "line_width bc") auto
qed

subsection \<open>The line width\<close>


subsection \<open>Lines, fields and rows of the cache file\<close>

lemma read_lines_append:
  "read_lines e (xs @ ys) locs =
     (case read_lines e xs locs of
        (None, locs') \<Rightarrow> read_lines e ys locs'
      | (Some err, locs') \<Rightarrow> (Some err, locs'))"
  by (induction xs arbitrary: locs) (auto split: sum.splits)

lemma universal_newlines_id: "CR \<notin> set s \<Longrightarrow> universal_newlines s = s"
  by (induction s rule: universal_newlines.induct) auto

lemma split_lines_line:
  "LF \<notin> set l \<Longrightarrow> split_lines (l @ LF # s) = (l @ [LF]) # split_lines s"
  by (induction l) auto

lemma py_split_plain: "sep \<notin> set s \<Longrightarrow> py_split sep s = [s]"
  by (induction s) auto

lemma py_split_field:
  "sep \<notin> set s \<Longrightarrow> py_split sep (s @ sep # r) = s # py_split sep r"
  by (induction s) auto

lemma cache_row_split:
  assumes "plain ip" "plain sx" "plain sy"
  shows "py_split CHR '','' (ip @ '', '' @ sx @ '', '' @ sy @ [LF]) =
           [ip, '' '' @ sx, '' '' @ sy @ [LF]]"
proof -
  have 1: "CHR '','' \<notin> set ip" and 2: "CHR '','' \<notin> set ('' '' @ sx)"
    and 3: "CHR '','' \<notin> set ('' '' @ sy @ [LF])"
    using assms by (simp_all add: plain_def)
  have "ip @ '', '' @ sx @ '', '' @ sy @ [LF] =
        ip @ CHR '','' # (('' '' @ sx) @ CHR '','' # ('' '' @ sy @ [LF]))"
    by simp
  then show ?thesis
    by (simp only: py_split_field [OF 1] py_split_field [OF 2] py_split_plain [OF 3])
qed

lemma read_line_row:
  assumes "storable e item"
  shows "read_line e (cache_row e item) locs = Inr (AList.update (fst item) (snd item) locs)"
proof -
  from assms obtain ip x y where item: "item = (ip, JFloat x, JFloat y)"
    and ok: "plain ip" "reads_back e x" "reads_back e y"
    by (auto simp: storable_def split: prod.splits json.splits)
  from ok have sp: "py_split CHR '','' (ip @ '', '' @ float_str e x @ '', '' @ float_str e y @ [LF]) =
           [ip, '' '' @ float_str e x, '' '' @ float_str e y @ [LF]]"
    by (intro cache_row_split) (simp_all add: reads_back_def)
  from ok have fx: "py_float e ('' '' @ float_str e x) = Some x"
    and fy: "py_float e ('' '' @ float_str e y @ [LF]) = Some y"
    by (simp_all add: reads_back_def)
  show ?thesis
    unfolding read_line_def item cache_row_def py_str_def
    using sp fx fy by simp
qed

lemma update_new_key: "k \<notin> fst ` set al \<Longrightarrow> AList.update k v al = al @ [(k, v)]"
  by (induction al) auto

lemma read_lines_rows:
  "\<forall>item\<in>set items. storable e item \<Longrightarrow> distinct (map fst (acc @ items)) \<Longrightarrow>
   read_lines e (map (cache_row e) items) acc = (None, acc @ items)"
proof (induction items arbitrary: acc)
  case Nil
  then show ?case by simp
next
  case (Cons item items)
  from Cons.prems have st: "storable e item" by simp
  from Cons.prems have "fst item \<notin> fst ` set acc" by auto
  then have u: "AList.update (fst item) (snd item) acc = acc @ [item]"
    by (simp add: update_new_key)
  from Cons.prems have "distinct (map fst ((acc @ [item]) @ items))" by simp
  with Cons.IH [of "acc @ [item]"] Cons.prems
  have "read_lines e (map (cache_row e) items) (acc @ [item]) = (None, (acc @ [item]) @ items)"
    by simp
  then show ?case
    by (simp add: read_line_row [OF st] u)
qed

lemma cache_row_line:
  assumes "storable e item"
  shows "\<exists>l. cache_row e item = l @ [LF] \<and> LF \<notin> set l \<and> CR \<notin> set l"
proof -
  from assms obtain ip x y where item: "item = (ip, JFloat x, JFloat y)"
    and ok: "plain ip" "plain (float_str e x)" "plain (float_str e y)"
    by (auto simp: storable_def reads_back_def split: prod.splits json.splits)
  have "cache_row e item = (ip @ '', '' @ float_str e x @ '', '' @ float_str e y) @ [LF]"
    by (simp add: cache_row_def item py_str_def)
  moreover have "LF \<notin> set (ip @ '', '' @ float_str e x @ '', '' @ float_str e y)"
    and "CR \<notin> set (ip @ '', '' @ float_str e x @ '', '' @ float_str e y)"
    using ok by (simp_all add: plain_def)
  ultimately show ?thesis by blast
qed

lemma split_lines_rows:
  "\<forall>item\<in>set items. storable e item \<Longrightarrow>
   split_lines (concat (map (cache_row e) items)) = map (cache_row e) items"
proof (induction items)
  case Nil
  then show ?case by simp
next
  case (Cons item items)
  then obtain l where l: "cache_row e item = l @ [LF]" "LF \<notin> set l"
    using cache_row_line [of e item] by auto
  from Cons have "split_lines (concat (map (cache_row e) items)) = map (cache_row e) items"
    by simp
  with l show ?case
    by (simp add: split_lines_line)
qed

lemma rows_no_CR:
  "\<forall>item\<in>set items. storable e item \<Longrightarrow> CR \<notin> set (concat (map (cache_row e) items))"
proof (induction items)
  case Nil
  then show ?case by simp
next
  case (Cons item items)
  then obtain l where "cache_row e item = l @ [LF]" "CR \<notin> set l"
    using cache_row_line [of e item] by auto
  with Cons show ?case by simp
qed

lemma split_lines_header:
  "split_lines (cache_header @ s) = cache_header # split_lines s"
  using split_lines_line [of "''ip,latitude,longitude''" s]
  by (simp add: cache_header_def)

section \<open>The claims\<close>

subsection \<open>A resolved address stays resolved\<close>

text \<open>
  Claim C1 as stated fails: \<^verbatim>\<open>10.0.0.3\<close> is resolved to (52, 13) by the provider; a
  \<open>read_from_file\<close> later in the run finds a row for the address in the cache file and
  assigns over the entry, and the next \<open>get_lat_lon\<close> returns (40, -74).
\<close>

theorem reload_overwrites_counterexample:
  "fst (get_lat_lon ex_env ''10.0.0.3''
         (ex_state_with_file (cache_header @ ''10.0.0.3, 40.0, -74.0'' @ [LF]))) =
     Some (JFloat 52, JFloat 13) \<and>
   fst (get_lat_lon ex_env ''10.0.0.3''
         (run ex_env [Read_from_file]
            (snd (get_lat_lon ex_env ''10.0.0.3''
                   (ex_state_with_file (cache_header @ ''10.0.0.3, 40.0, -74.0'' @ [LF])))))) =
     Some (JFloat 40, JFloat (- 74))"
  by (simp add: ex_state_with_file_def ex_state_def cache_header_def
      get_lat_lon_def ex_env_def ex_urlopen_json_def read_response_def py_contains_def
      py_getitem_def Let_def read_from_file_def read_line_def ex_float_def logging_def)

text \<open>
  Claim C1, amended. Once \<open>get_lat_lon\<close> has returned a coordinate for an address, every
  later \<open>get_lat_lon\<close> for it in the run, as long as only \<open>get_lat_lon\<close>, \<open>trace\<close> and
  \<open>write_to_file\<close> calls lie between (no \<open>read_from_file\<close>), returns the same coordinate
  and leaves the state as it is, so it sends nothing to the provider; the entry of the
  address is the same as after the first success, and no call in between has looked the
  address up again.
\<close>

theorem cached_address_stays_resolved:
  assumes "get_lat_lon e a st = (Some c, st1)"
    and "Read_from_file \<notin> set ops"
  shows "get_lat_lon e a (run e ops st1) = (Some c, run e ops st1) \<and>
         map_of (ip_locations (run e ops st1)) a = Some c \<and>
         count_list (lookups (run e ops st1)) a = count_list (lookups st1) a"
proof -
  from get_lat_lon_Some [OF assms(1)]
  have start: "map_of (ip_locations st1) a = Some c \<and> a \<notin> blacklisted_ips st1 \<and>
      count_list (lookups st1) a = count_list (lookups st1) a"
    by simp
  have "(\<lambda>s. map_of (ip_locations s) a = Some c \<and> a \<notin> blacklisted_ips s \<and>
      count_list (lookups s) a = count_list (lookups st1) a) (run e ops st1)"
  proof (rule run_preserves)
    fix x and s :: state
    assume "x \<in> set ops"
      and "map_of (ip_locations s) a = Some c \<and> a \<notin> blacklisted_ips s \<and>
        count_list (lookups s) a = count_list (lookups st1) a"
    with assms(2) exec_op_keeps_cached [of x s a c "count_list (lookups st1) a" e]
    show "map_of (ip_locations (exec_op e x s)) a = Some c \<and>
        a \<notin> blacklisted_ips (exec_op e x s) \<and>
        count_list (lookups (exec_op e x s)) a = count_list (lookups st1) a"
      by auto
  qed (use start in simp)
  then show ?thesis by (simp add: get_lat_lon_cached)
qed

theorem cached_address_stays_resolved_witness:
  "get_lat_lon ex_env ''10.0.0.1'' ex_state =
     (Some (JFloat 40, JFloat (- 74)), snd (get_lat_lon ex_env ''10.0.0.1'' ex_state)) \<and>
   Read_from_file \<notin> set [Get_lat_lon ''10.0.0.2'', Trace_route ''10.0.0.3'' 3 64 2 True, Write_to_file] \<and>
   fst (get_lat_lon ex_env ''10.0.0.1''
         (run ex_env [Get_lat_lon ''10.0.0.2'', Trace_route ''10.0.0.3'' 3 64 2 True, Write_to_file]
            (snd (get_lat_lon ex_env ''10.0.0.1'' ex_state)))) =
     Some (JFloat 40, JFloat (- 74))"
proof -
  have h1: "get_lat_lon ex_env ''10.0.0.1'' ex_state =
     (Some (JFloat 40, JFloat (- 74)), snd (get_lat_lon ex_env ''10.0.0.1'' ex_state))"
    by (simp add: get_lat_lon_def ex_env_def ex_state_def ex_urlopen_json_def read_response_def
        py_contains_def py_getitem_def Let_def)
  have h2: "Read_from_file \<notin>
      set [Get_lat_lon ''10.0.0.2'', Trace_route ''10.0.0.3'' 3 64 2 True, Write_to_file]"
    by simp
  from cached_address_stays_resolved [OF h1 h2] h1 h2 show ?thesis
    by simp
qed

subsection \<open>A blacklisted address stays blacklisted\<close>

text \<open>
  Claim C2. When the provider is asked for an address and answers with an object that
  reports "not found" (a missing field, \<^verbatim>\<open>null\<close>, or \<^verbatim>\<open>Not found\<close>), \<open>get_lat_lon\<close> returns
  nothing and the address is in the blacklist; after any further operations of the run,
  \<open>get_lat_lon\<close> for the address returns nothing and leaves the state as it is, and none
  of the operations has looked the address up again.
\<close>

theorem not_found_is_blacklisted_for_good:
  assumes "a \<notin> blacklisted_ips st" and "map_of (ip_locations st) a = None"
    and "urlopen_json e (length (lookups st)) a = Inr (JObj kvs)"
    and "reports_not_found kvs"
  shows "fst (get_lat_lon e a st) = None \<and>
         a \<in> blacklisted_ips (snd (get_lat_lon e a st)) \<and>
         get_lat_lon e a (run e ops (snd (get_lat_lon e a st))) =
           (None, run e ops (snd (get_lat_lon e a st))) \<and>
         count_list (lookups (run e ops (snd (get_lat_lon e a st)))) a =
           count_list (lookups (snd (get_lat_lon e a st))) a"
proof -
  define st1 where "st1 = snd (get_lat_lon e a st)"
  have first: "get_lat_lon e a st =
      (None, st\<lparr>lookups := lookups st @ [a], blacklisted_ips := insert a (blacklisted_ips st)\<rparr>)"
    using assms by (simp add: get_lat_lon_def Let_def read_response_not_found)
  then have b1: "a \<in> blacklisted_ips st1" by (simp add: st1_def)
  have "(\<lambda>s. a \<in> blacklisted_ips s \<and> count_list (lookups s) a = count_list (lookups st1) a)
          (run e ops st1)"
  proof (rule run_preserves)
    fix x and s :: state
    assume "a \<in> blacklisted_ips s \<and> count_list (lookups s) a = count_list (lookups st1) a"
    then show "a \<in> blacklisted_ips (exec_op e x s) \<and>
        count_list (lookups (exec_op e x s)) a = count_list (lookups st1) a"
      by (rule exec_op_keeps_blacklisted)
  qed (use b1 in simp)
  then show ?thesis using first b1
    by (simp add: st1_def get_lat_lon_blacklisted)
qed

theorem not_found_is_blacklisted_for_good_witness:
  "''10.0.0.2'' \<notin> blacklisted_ips ex_state \<and>
   map_of (ip_locations ex_state) ''10.0.0.2'' = None \<and>
   urlopen_json ex_env (length (lookups ex_state)) ''10.0.0.2'' =
     Inr (JObj [(''latitude'', JNull), (''longitude'', JNull)]) \<and>
   reports_not_found [(''latitude'', JNull), (''longitude'', JNull)] \<and>
   fst (get_lat_lon ex_env ''10.0.0.2'' ex_state) = None \<and>
   ''10.0.0.2'' \<in> blacklisted_ips (snd (get_lat_lon ex_env ''10.0.0.2'' ex_state)) \<and>
   fst (get_lat_lon ex_env ''10.0.0.2''
         (run ex_env [Read_from_file, Trace_route ''10.0.0.3'' 3 64 2 False]
            (snd (get_lat_lon ex_env ''10.0.0.2'' ex_state)))) = None"
proof -
  have h1: "''10.0.0.2'' \<notin> blacklisted_ips ex_state" by (simp add: ex_state_def)
  have h2: "map_of (ip_locations ex_state) ''10.0.0.2'' = None" by (simp add: ex_state_def)
  have h3: "urlopen_json ex_env (length (lookups ex_state)) ''10.0.0.2'' =
     Inr (JObj [(''latitude'', JNull), (''longitude'', JNull)])"
    by (simp add: ex_env_def ex_urlopen_json_def)
  have h4: "reports_not_found [(''latitude'', JNull), (''longitude'', JNull)]"
    by (simp add: reports_not_found_def)
  from not_found_is_blacklisted_for_good [OF h1 h2 h3 h4,
      of "[Read_from_file, Trace_route ''10.0.0.3'' 3 64 2 False]"] h1 h2 h3 h4
  show ?thesis by simp
qed

subsection \<open>Cache and blacklist are disjoint\<close>

text \<open>
  Claim C3 as stated fails: a new resolver asks for \<^verbatim>\<open>10.0.0.2\<close>, is told "not found" and
  blacklists it; \<open>read_from_file\<close> then loads a cache file that has a row for that
  address, and the address is in both.
\<close>

theorem disjointness_counterexample:
  "''10.0.0.2'' \<in> fst ` set (ip_locations
      (run ex_env [Get_lat_lon ''10.0.0.2'', Read_from_file]
        (Trace_init (ex_state_with_file (cache_header @ ''10.0.0.2, 40.0, -74.0'' @ [LF]))))) \<and>
   ''10.0.0.2'' \<in> blacklisted_ips
      (run ex_env [Get_lat_lon ''10.0.0.2'', Read_from_file]
        (Trace_init (ex_state_with_file (cache_header @ ''10.0.0.2, 40.0, -74.0'' @ [LF]))))"
  by (simp add: Trace_init_def ex_state_with_file_def ex_state_def cache_header_def
      get_lat_lon_def ex_env_def ex_urlopen_json_def read_response_def py_contains_def
      py_getitem_def Let_def read_from_file_def read_line_def ex_float_def logging_def)

text \<open>
  Claim C3, amended. Starting from a new resolver, after any number of \<open>read_from_file\<close>
  calls followed by any sequence of \<open>write_to_file\<close>, \<open>get_lat_lon\<close> and \<open>trace\<close> calls, no
  address is both in \<open>ip_locations\<close> and in \<open>blacklisted_ips\<close>.
\<close>

theorem disjoint_when_loaded_first:
  assumes "Read_from_file \<notin> set ops"
  shows "fst ` set (ip_locations (run e (replicate n Read_from_file @ ops) (Trace_init st))) \<inter>
         blacklisted_ips (run e (replicate n Read_from_file @ ops) (Trace_init st)) = {}"
proof -
  define st1 where "st1 = run e (replicate n Read_from_file) (Trace_init st)"
  have "blacklisted_ips st1 = {}"
    by (simp add: st1_def reads_keep_blacklist Trace_init_def)
  then have start: "\<forall>a. a \<in> blacklisted_ips st1 \<longrightarrow> map_of (ip_locations st1) a = None"
    by simp
  have "(\<lambda>s. \<forall>a. a \<in> blacklisted_ips s \<longrightarrow> map_of (ip_locations s) a = None) (run e ops st1)"
  proof (rule run_preserves)
    fix x and s :: state
    assume "x \<in> set ops" and "\<forall>a. a \<in> blacklisted_ips s \<longrightarrow> map_of (ip_locations s) a = None"
    with assms exec_op_keeps_disjoint [of x s e]
    show "\<forall>a. a \<in> blacklisted_ips (exec_op e x s) \<longrightarrow> map_of (ip_locations (exec_op e x s)) a = None"
      by auto
  qed (use start in simp)
  then have "\<forall>a. a \<in> blacklisted_ips (run e ops st1) \<longrightarrow> a \<notin> fst ` set (ip_locations (run e ops st1))"
    by (simp add: keys_map_of)
  then show ?thesis
    unfolding st1_def run_append by blast
qed

theorem disjoint_when_loaded_first_witness:
  "Read_from_file \<notin> set [Get_lat_lon ''10.0.0.2'', Trace_route ''10.0.0.3'' 3 64 2 False, Write_to_file] \<and>
   fst ` set (ip_locations
      (run ex_env (replicate 1 Read_from_file @
          [Get_lat_lon ''10.0.0.2'', Trace_route ''10.0.0.3'' 3 64 2 False, Write_to_file])
        (Trace_init (ex_state_with_file (cache_header @ ''10.0.0.2, 40.0, -74.0'' @ [LF]))))) \<inter>
   blacklisted_ips
      (run ex_env (replicate 1 Read_from_file @
          [Get_lat_lon ''10.0.0.2'', Trace_route ''10.0.0.3'' 3 64 2 False, Write_to_file])
        (Trace_init (ex_state_with_file (cache_header @ ''10.0.0.2, 40.0, -74.0'' @ [LF])))) = {}"
proof -
  have h: "Read_from_file \<notin>
      set [Get_lat_lon ''10.0.0.2'', Trace_route ''10.0.0.3'' 3 64 2 False, Write_to_file]"
    by simp
  from disjoint_when_loaded_first [OF h] h show ?thesis by blast
qed

subsection \<open>A load that fails\<close>

text \<open>
  Claim C4 as stated fails: the second row of the file is malformed, the load logs the
  error and returns, and the resolver keeps the entry of the first row instead of an
  empty cache.
\<close>

theorem partial_load_counterexample:
  "ip_locations (read_from_file ex_env (Trace_init (ex_state_with_file
      (cache_header @ ''10.0.0.1, 40.0, -74.0'' @ [LF] @ ''garbage'' @ [LF])))) =
     [(''10.0.0.1'', JFloat 40, JFloat (- 74))] \<and>
   logged (read_from_file ex_env (Trace_init (ex_state_with_file
      (cache_header @ ''10.0.0.1, 40.0, -74.0'' @ [LF] @ ''garbage'' @ [LF])))) =
     [(ERROR, Unable_to_load_cache ValueError)]"
  by (simp add: Trace_init_def ex_state_with_file_def ex_state_def cache_header_def
      ex_env_def Let_def read_from_file_def read_line_def ex_float_def logging_def)

text \<open>
  Claim C4, amended. \<open>read_from_file\<close> always returns (its exceptions are caught and
  logged). Without a cache file it changes nothing, so a new resolver stays empty; with
  a file that cannot be opened it only logs the error; and when a row is malformed, it
  logs the error and the resolver keeps what it held plus the rows before the malformed
  one, while the rows after it are not read.
\<close>

theorem load_failure_keeps_rows_before:
  "(cache_content st = None \<longrightarrow> read_from_file e st = st) \<and>
   (cache_content st = Some bytes \<and> \<not> cache_readable st \<longrightarrow>
      read_from_file e st = logging ERROR (Unable_to_load_cache OSError) st) \<and>
   (cache_content st = Some bytes \<and> cache_readable st \<and>
    drop 1 (split_lines (universal_newlines bytes)) = good @ bad # rest \<and>
    read_lines e good (ip_locations st) = (None, locs) \<and> read_line e bad locs = Inl err \<longrightarrow>
      read_from_file e st =
        logging ERROR (Unable_to_load_cache err) (st\<lparr>ip_locations := locs\<rparr>))"
proof (intro conjI impI)
  assume "cache_content st = None"
  then show "read_from_file e st = st" by (simp add: read_from_file_def)
next
  assume "cache_content st = Some bytes \<and> \<not> cache_readable st"
  then show "read_from_file e st = logging ERROR (Unable_to_load_cache OSError) st"
    by (simp add: read_from_file_def)
next
  assume a: "cache_content st = Some bytes \<and> cache_readable st \<and>
    drop 1 (split_lines (universal_newlines bytes)) = good @ bad # rest \<and>
    read_lines e good (ip_locations st) = (None, locs) \<and> read_line e bad locs = Inl err"
  then have "read_lines e (good @ bad # rest) (ip_locations st) = (Some err, locs)"
    by (simp add: read_lines_append)
  with a show "read_from_file e st =
        logging ERROR (Unable_to_load_cache err) (st\<lparr>ip_locations := locs\<rparr>)"
    by (simp add: read_from_file_def)
qed

theorem load_failure_keeps_rows_before_witness:
  "cache_content ex_state = None \<and> read_from_file ex_env ex_state = ex_state \<and>
   (cache_content (ex_state_with_file cache_header\<lparr>cache_readable := False\<rparr>) = Some cache_header \<and>
    \<not> cache_readable (ex_state_with_file cache_header\<lparr>cache_readable := False\<rparr>)) \<and>
   read_from_file ex_env (ex_state_with_file cache_header\<lparr>cache_readable := False\<rparr>) =
     logging ERROR (Unable_to_load_cache OSError)
       (ex_state_with_file cache_header\<lparr>cache_readable := False\<rparr>) \<and>
   (cache_content (ex_state_with_file
       (cache_header @ ''10.0.0.1, 40.0, -74.0'' @ [LF] @ ''garbage'' @ [LF])) =
      Some (cache_header @ ''10.0.0.1, 40.0, -74.0'' @ [LF] @ ''garbage'' @ [LF]) \<and>
    cache_readable (ex_state_with_file
       (cache_header @ ''10.0.0.1, 40.0, -74.0'' @ [LF] @ ''garbage'' @ [LF])) \<and>
    drop 1 (split_lines (universal_newlines
       (cache_header @ ''10.0.0.1, 40.0, -74.0'' @ [LF] @ ''garbage'' @ [LF]))) =
      [''10.0.0.1, 40.0, -74.0'' @ [LF]] @ (''garbage'' @ [LF]) # [] \<and>
    read_lines ex_env [''10.0.0.1, 40.0, -74.0'' @ [LF]]
       (ip_locations (ex_state_with_file
          (cache_header @ ''10.0.0.1, 40.0, -74.0'' @ [LF] @ ''garbage'' @ [LF]))) =
      (None, [(''10.0.0.1'', JFloat 40, JFloat (- 74))]) \<and>
    read_line ex_env (''garbage'' @ [LF]) [(''10.0.0.1'', JFloat 40, JFloat (- 74))] =
      Inl ValueError) \<and>
   read_from_file ex_env (ex_state_with_file
       (cache_header @ ''10.0.0.1, 40.0, -74.0'' @ [LF] @ ''garbage'' @ [LF])) =
     logging ERROR (Unable_to_load_cache ValueError)
       (ex_state_with_file (cache_header @ ''10.0.0.1, 40.0, -74.0'' @ [LF] @ ''garbage'' @ [LF])
          \<lparr>ip_locations := [(''10.0.0.1'', JFloat 40, JFloat (- 74))]\<rparr>)"
proof -
  have h1: "cache_content ex_state = None" by (simp add: ex_state_def)
  have h2: "cache_content (ex_state_with_file cache_header\<lparr>cache_readable := False\<rparr>) =
      Some cache_header \<and>
    \<not> cache_readable (ex_state_with_file cache_header\<lparr>cache_readable := False\<rparr>)"
    by (simp add: ex_state_with_file_def)
  have h3: "cache_content (ex_state_with_file
       (cache_header @ ''10.0.0.1, 40.0, -74.0'' @ [LF] @ ''garbage'' @ [LF])) =
      Some (cache_header @ ''10.0.0.1, 40.0, -74.0'' @ [LF] @ ''garbage'' @ [LF]) \<and>
    cache_readable (ex_state_with_file
       (cache_header @ ''10.0.0.1, 40.0, -74.0'' @ [LF] @ ''garbage'' @ [LF])) \<and>
    drop 1 (split_lines (universal_newlines
       (cache_header @ ''10.0.0.1, 40.0, -74.0'' @ [LF] @ ''garbage'' @ [LF]))) =
      [''10.0.0.1, 40.0, -74.0'' @ [LF]] @ (''garbage'' @ [LF]) # [] \<and>
    read_lines ex_env [''10.0.0.1, 40.0, -74.0'' @ [LF]]
       (ip_locations (ex_state_with_file
          (cache_header @ ''10.0.0.1, 40.0, -74.0'' @ [LF] @ ''garbage'' @ [LF]))) =
      (None, [(''10.0.0.1'', JFloat 40, JFloat (- 74))]) \<and>
    read_line ex_env (''garbage'' @ [LF]) [(''10.0.0.1'', JFloat 40, JFloat (- 74))] =
      Inl ValueError"
    by (simp add: ex_state_with_file_def ex_state_def cache_header_def ex_env_def Let_def
        read_line_def ex_float_def)
  have w1: "read_from_file ex_env ex_state = ex_state"
    using load_failure_keeps_rows_before [of ex_state ex_env] h1 by blast
  have w2: "read_from_file ex_env (ex_state_with_file cache_header\<lparr>cache_readable := False\<rparr>) =
     logging ERROR (Unable_to_load_cache OSError)
       (ex_state_with_file cache_header\<lparr>cache_readable := False\<rparr>)"
    using load_failure_keeps_rows_before
      [of "ex_state_with_file cache_header\<lparr>cache_readable := False\<rparr>" ex_env cache_header] h2
    by blast
  have w3: "read_from_file ex_env (ex_state_with_file
       (cache_header @ ''10.0.0.1, 40.0, -74.0'' @ [LF] @ ''garbage'' @ [LF])) =
     logging ERROR (Unable_to_load_cache ValueError)
       (ex_state_with_file (cache_header @ ''10.0.0.1, 40.0, -74.0'' @ [LF] @ ''garbage'' @ [LF])
          \<lparr>ip_locations := [(''10.0.0.1'', JFloat 40, JFloat (- 74))]\<rparr>)"
    using load_failure_keeps_rows_before
      [of "ex_state_with_file (cache_header @ ''10.0.0.1, 40.0, -74.0'' @ [LF] @ ''garbage'' @ [LF])"
          ex_env "cache_header @ ''10.0.0.1, 40.0, -74.0'' @ [LF] @ ''garbage'' @ [LF]"
          "[''10.0.0.1, 40.0, -74.0'' @ [LF]]" "''garbage'' @ [LF]" "[]"
          "[(''10.0.0.1'', JFloat 40, JFloat (- 74))]" ValueError] h3
    by blast
  show ?thesis
    using h1 h2 h3 w1 w2 w3 by blast
qed

subsection \<open>Saving and loading again\<close>

text \<open>
  Claim C5 as stated fails. An address with a comma is written as one row with four
  fields, and a pair of strings that are not numbers (as stored for \<^verbatim>\<open>10.0.0.7\<close>) is
  written as text that \<^verbatim>\<open>float\<close> rejects; in both cases the load raises at that row and
  the new resolver does not get the entry.
\<close>

theorem round_trip_counterexample:
  "ip_locations (read_from_file ex_env (Trace_init (write_to_file ex_env
      (ex_state\<lparr>ip_locations := [(''10.0.0.1,x'', JFloat 40, JFloat (- 74))]\<rparr>)))) = [] \<and>
   ip_locations (snd (get_lat_lon ex_env ''10.0.0.7'' ex_state)) =
     [(''10.0.0.7'', JStr ''abc'', JStr ''def'')] \<and>
   ip_locations (read_from_file ex_env (Trace_init (write_to_file ex_env
      (snd (get_lat_lon ex_env ''10.0.0.7'' ex_state))))) = []"
  by (simp add: Trace_init_def ex_state_def cache_header_def write_to_file_def cache_row_def
      py_str_def ex_env_def ex_float_str_def Let_def read_from_file_def read_line_def
      ex_float_def logging_def get_lat_lon_def ex_urlopen_json_def read_response_def
      py_contains_def py_getitem_def)

text \<open>
  Claim C5, amended. For a resolver whose addresses contain no comma and no line break
  and whose coordinates are floats that \<^verbatim>\<open>str\<close> and \<^verbatim>\<open>float\<close> carry through the file (see
  \<open>storable\<close>), with a cache file that can be written and read: \<open>write_to_file\<close> followed
  by \<open>read_from_file\<close> into a new resolver gives the same \<open>ip_locations\<close>, in the same
  order, and an empty blacklist.
\<close>

theorem save_then_load_round_trip:
  assumes "distinct (map fst (ip_locations st))"
    and "\<forall>item\<in>set (ip_locations st). storable e item"
    and "cache_writable st" and "cache_readable st"
  shows "ip_locations (read_from_file e (Trace_init (write_to_file e st))) = ip_locations st \<and>
         blacklisted_ips (read_from_file e (Trace_init (write_to_file e st))) = {}"
proof -
  define bytes where "bytes = cache_header @ concat (map (cache_row e) (ip_locations st))"
  have w: "Trace_init (write_to_file e st) =
      st\<lparr>cache_content := Some bytes, ip_locations := [], blacklisted_ips := {}\<rparr>"
    using assms(3) by (simp add: write_to_file_def Trace_init_def bytes_def)
  have "CR \<notin> set bytes"
    using rows_no_CR [OF assms(2)] by (simp add: bytes_def cache_header_def)
  then have "universal_newlines bytes = bytes" by (rule universal_newlines_id)
  then have "drop 1 (split_lines (universal_newlines bytes)) = map (cache_row e) (ip_locations st)"
    by (simp add: bytes_def split_lines_header split_lines_rows [OF assms(2)])
  moreover have "read_lines e (map (cache_row e) (ip_locations st)) [] = (None, [] @ ip_locations st)"
    using assms(1) assms(2) by (intro read_lines_rows) simp_all
  ultimately show ?thesis
    using assms(4) by (simp add: w read_from_file_def)
qed

theorem save_then_load_round_trip_witness:
  "distinct (map fst (ip_locations (snd (get_lat_lon ex_env ''10.0.0.1'' ex_state)))) \<and>
   storable ex_env (''10.0.0.1'', JFloat 40, JFloat (- 74)) \<and>
   cache_writable (snd (get_lat_lon ex_env ''10.0.0.1'' ex_state)) \<and>
   cache_readable (snd (get_lat_lon ex_env ''10.0.0.1'' ex_state)) \<and>
   ip_locations (snd (get_lat_lon ex_env ''10.0.0.1'' ex_state)) =
     [(''10.0.0.1'', JFloat 40, JFloat (- 74))] \<and>
   ip_locations (read_from_file ex_env (Trace_init (write_to_file ex_env
       (snd (get_lat_lon ex_env ''10.0.0.1'' ex_state))))) =
     [(''10.0.0.1'', JFloat 40, JFloat (- 74))] \<and>
   blacklisted_ips (read_from_file ex_env (Trace_init (write_to_file ex_env
       (snd (get_lat_lon ex_env ''10.0.0.1'' ex_state))))) = {}"
proof -
  have g: "snd (get_lat_lon ex_env ''10.0.0.1'' ex_state) =
      ex_state\<lparr>lookups := [''10.0.0.1''],
        ip_locations := [(''10.0.0.1'', JFloat 40, JFloat (- 74))]\<rparr>"
    by (simp add: get_lat_lon_def ex_env_def ex_state_def ex_urlopen_json_def read_response_def
        py_contains_def py_getitem_def Let_def)
  have h0: "ip_locations (snd (get_lat_lon ex_env ''10.0.0.1'' ex_state)) =
     [(''10.0.0.1'', JFloat 40, JFloat (- 74))]"
    by (simp add: g)
  have h1: "distinct (map fst (ip_locations (snd (get_lat_lon ex_env ''10.0.0.1'' ex_state))))"
    by (simp add: g)
  have h2: "\<forall>item\<in>set (ip_locations (snd (get_lat_lon ex_env ''10.0.0.1'' ex_state))).
      storable ex_env item"
    unfolding h0
    by (simp add: storable_def plain_def reads_back_def ex_env_def ex_float_str_def
        ex_float_def)
  have h3: "cache_writable (snd (get_lat_lon ex_env ''10.0.0.1'' ex_state))"
    unfolding g by (simp add: ex_state_def)
  have h4: "cache_readable (snd (get_lat_lon ex_env ''10.0.0.1'' ex_state))"
    unfolding g by (simp add: ex_state_def)
  have w: "ip_locations (read_from_file ex_env (Trace_init (write_to_file ex_env
       (snd (get_lat_lon ex_env ''10.0.0.1'' ex_state))))) =
     [(''10.0.0.1'', JFloat 40, JFloat (- 74))] \<and>
   blacklisted_ips (read_from_file ex_env (Trace_init (write_to_file ex_env
       (snd (get_lat_lon ex_env ''10.0.0.1'' ex_state))))) = {}"
    using save_then_load_round_trip [OF h1 h2 h3 h4] h0 by simp
  have h2': "storable ex_env (''10.0.0.1'', JFloat 40, JFloat (- 74))"
    using h2 unfolding h0 by simp
  show ?thesis
    using h0 h1 h2' h3 h4 w by blast
qed

subsection \<open>Hop numbers\<close>

text \<open>
  Claim C6 as stated fails in its example: the probe towards \<^verbatim>\<open>10.0.0.3\<close> gets three
  replies, the second (\<^verbatim>\<open>10.0.0.2\<close>) does not resolve, and the destination is not among
  the replies but resolves; the figure then has three hops, numbered 1, 2 and 3.
\<close>

theorem third_hop_counterexample:
  "fst (get_lat_lon ex_env_detour ''10.0.0.2'' ex_state) = None \<and>
   fst (trace ex_env_detour ''10.0.0.3'' 3 1 2 False ex_state) =
     Inr \<lparr>sg_mode = ''markers+lines'', sg_lon = [JFloat (- 74), JFloat (- 74), JFloat 13],
          sg_lat = [JFloat 40, JFloat 40, JFloat 52],
          sg_text = [''hop 1: '', ''hop 2: '', ''hop 3: 10.0.0.3''],
          sg_name = ''3 packets, 1 bytes'', sg_line_width = 0,
          sg_marker_size = 10, sg_marker_symbol = ''square''\<rparr>"
  by (simp add: trace_def ex_env_detour_def ex_env_def ex_ip_address_def ex_traceroute_detour_def
      ex_state_def Let_def get_lat_lon_def ex_urlopen_json_def logging_def no_hops_def
      last_hop_def trace_name_def read_response_def py_contains_def py_getitem_def
      line_width_def math_log_def py_int_def marker_size_def hop_label_def str_int_def
      str_nat.simps digit_char_def)

text \<open>
  Claim C6, amended. In the figure that \<open>trace\<close> returns, the first hops are the replies
  that resolved, in reply order, and the label of the \<open>i\<close>-th of them (from 1) is the
  text \<^verbatim>\<open>hop\<close>, the decimal number \<open>i\<close>, a colon and the address (or nothing): a reply that
  does not resolve adds no hop and does not advance the counter. The figure has exactly
  these hops when the destination is among the resolved replies or does not resolve
  itself, and one hop more otherwise. So with three replies of which the second does not
  resolve, the figure has the two hops 1 and 2 when the third reply is the destination.
\<close>

theorem hop_indices_follow_resolved_replies:
  assumes "trace e ip hits bc t dn st = (Inr fig, st')"
    and "ip_address e ip = Some fam"
    and "(if fam = IPv6Address then traceroute6 e (probes st) ip t
          else traceroute e (probes st) ip t) = Inr res"
    and "resolved_replies e res (st\<lparr>probes := Suc (probes st)\<rparr>) = (hs, st1)"
  shows "take (length hs) (sg_text fig) =
           map (\<lambda>i. ''hop '' @ str_int (1 + int i) @ '': '' @
                      (if dn then reply_src (hs ! i) else []))
             [0..<length hs] \<and>
         (\<forall>i<length hs. int (decimal_value (str_int (1 + int i))) = 1 + int i) \<and>
         take (length hs) (sg_lat fig) = map reply_lat hs \<and>
         take (length hs) (sg_lon fig) = map reply_lon hs \<and>
         length (sg_text fig) =
           length hs +
           (if ip \<in> reply_src ` set hs \<or> fst (get_lat_lon e ip st1) = None then 0 else 1) \<and>
         length (sg_lat fig) = length (sg_text fig) \<and>
         length (sg_lon fig) = length (sg_text fig)"
proof -
  obtain h2 st2 where l: "last_hop e ip (loop_result dn hs) st1 = (h2, st2)"
    by (cases "last_hop e ip (loop_result dn hs) st1")
  note r = trace_returns [OF assms l]
  have d: "\<forall>i<length hs. int (decimal_value (str_int (1 + int i))) = 1 + int i"
    by (simp add: decimal_value_str_int)
  show ?thesis
  proof (cases "ip \<in> reply_src ` set hs")
    case True
    then have "ip \<in> received (loop_result dn hs)" by (simp add: loop_result_def)
    from last_hop_seen [OF this, of e st1] l have "h2 = loop_result dn hs" by simp
    with r True d show ?thesis by (simp add: loop_result_def hop_label_def)
  next
    case False
    then have "ip \<notin> received (loop_result dn hs)" by (simp add: loop_result_def)
    from last_hop_unseen [OF this, of e st1] l False r d show ?thesis
      by (cases "fst (get_lat_lon e ip st1)") (auto simp: loop_result_def hop_label_def)
  qed
qed

theorem hop_indices_follow_resolved_replies_witness:
  "trace ex_env ''10.0.0.3'' 3 1 2 False ex_state =
     (Inr \<lparr>sg_mode = ''markers+lines'', sg_lon = [JFloat (- 74), JFloat 13],
           sg_lat = [JFloat 40, JFloat 52], sg_text = [''hop 1: '', ''hop 2: ''],
           sg_name = ''3 packets, 1 bytes'', sg_line_width = 0,
           sg_marker_size = 10, sg_marker_symbol = ''square''\<rparr>,
      snd (trace ex_env ''10.0.0.3'' 3 1 2 False ex_state)) \<and>
   ip_address ex_env ''10.0.0.3'' = Some IPv4Address \<and>
   traceroute ex_env (probes ex_state) ''10.0.0.3'' 2 =
     Inr [(''10.0.0.3'', ''10.0.0.1''), (''10.0.0.3'', ''10.0.0.2''), (''10.0.0.3'', ''10.0.0.3'')] \<and>
   fst (resolved_replies ex_env
         [(''10.0.0.3'', ''10.0.0.1''), (''10.0.0.3'', ''10.0.0.2''), (''10.0.0.3'', ''10.0.0.3'')]
         (ex_state\<lparr>probes := Suc (probes ex_state)\<rparr>)) =
     [(''10.0.0.3'', ''10.0.0.1'', JFloat 40, JFloat (- 74)),
      (''10.0.0.3'', ''10.0.0.3'', JFloat 52, JFloat 13)] \<and>
   [''hop 1: '', ''hop 2: ''] = [''hop '' @ str_int 1 @ '': '', ''hop '' @ str_int 2 @ '': ''] \<and>
   length [''hop 1: '', ''hop 2: ''] = 2 + (0::nat)"
proof -
  have h1: "trace ex_env ''10.0.0.3'' 3 1 2 False ex_state =
     (Inr \<lparr>sg_mode = ''markers+lines'', sg_lon = [JFloat (- 74), JFloat 13],
           sg_lat = [JFloat 40, JFloat 52], sg_text = [''hop 1: '', ''hop 2: ''],
           sg_name = ''3 packets, 1 bytes'', sg_line_width = 0,
           sg_marker_size = 10, sg_marker_symbol = ''square''\<rparr>,
      snd (trace ex_env ''10.0.0.3'' 3 1 2 False ex_state))"
    by (simp add: trace_def ex_env_def ex_ip_address_def ex_traceroute_def ex_state_def Let_def
        get_lat_lon_def ex_urlopen_json_def logging_def no_hops_def last_hop_def trace_name_def
        read_response_def py_contains_def py_getitem_def line_width_def math_log_def py_int_def
        marker_size_def hop_label_def str_int_def str_nat.simps digit_char_def)
  have h2: "ip_address ex_env ''10.0.0.3'' = Some IPv4Address"
    by (simp add: ex_env_def ex_ip_address_def)
  have h3: "(if IPv4Address = IPv6Address then traceroute6 ex_env (probes ex_state) ''10.0.0.3'' 2
             else traceroute ex_env (probes ex_state) ''10.0.0.3'' 2) =
     Inr [(''10.0.0.3'', ''10.0.0.1''), (''10.0.0.3'', ''10.0.0.2''), (''10.0.0.3'', ''10.0.0.3'')]"
    by (simp add: ex_env_def ex_traceroute_def)
  have h4: "resolved_replies ex_env
         [(''10.0.0.3'', ''10.0.0.1''), (''10.0.0.3'', ''10.0.0.2''), (''10.0.0.3'', ''10.0.0.3'')]
         (ex_state\<lparr>probes := Suc (probes ex_state)\<rparr>) =
     ([(''10.0.0.3'', ''10.0.0.1'', JFloat 40, JFloat (- 74)),
       (''10.0.0.3'', ''10.0.0.3'', JFloat 52, JFloat 13)],
      snd (resolved_replies ex_env
         [(''10.0.0.3'', ''10.0.0.1''), (''10.0.0.3'', ''10.0.0.2''), (''10.0.0.3'', ''10.0.0.3'')]
         (ex_state\<lparr>probes := Suc (probes ex_state)\<rparr>)))"
    by (simp add: ex_env_def ex_state_def Let_def get_lat_lon_def ex_urlopen_json_def
        read_response_def py_contains_def py_getitem_def)
  have h3': "traceroute ex_env (probes ex_state) ''10.0.0.3'' 2 =
     Inr [(''10.0.0.3'', ''10.0.0.1''), (''10.0.0.3'', ''10.0.0.2''), (''10.0.0.3'', ''10.0.0.3'')]"
    using h3 by simp
  have h4': "fst (resolved_replies ex_env
         [(''10.0.0.3'', ''10.0.0.1''), (''10.0.0.3'', ''10.0.0.2''), (''10.0.0.3'', ''10.0.0.3'')]
         (ex_state\<lparr>probes := Suc (probes ex_state)\<rparr>)) =
     [(''10.0.0.3'', ''10.0.0.1'', JFloat 40, JFloat (- 74)),
      (''10.0.0.3'', ''10.0.0.3'', JFloat 52, JFloat 13)]"
    using h4 by (metis fst_conv)
  have w: "[''hop 1: '', ''hop 2: ''] =
       [''hop '' @ str_int 1 @ '': '', ''hop '' @ str_int 2 @ '': ''] \<and>
     length [''hop 1: '', ''hop 2: ''] = 2 + (0::nat)"
    using hop_indices_follow_resolved_replies [OF h1 h2 h3 h4]
    by (simp add: numeral_2_eq_2 reply_src_def)
  show ?thesis
    using h1 h2 h3' h4' w by blast
qed

subsection \<open>The destination as last hop\<close>

text \<open>
  Claim C7. When the destination is not among the resolved replies, \<open>trace\<close> calls
  \<open>get_lat_lon\<close> for it once, after the loop: the cache, the blacklist and the lookups
  of the final state are those this one call leaves. If it returns nothing, the hops are
  the resolved replies; if it returns a coordinate, that coordinate is appended as the
  last hop, and its label is the text \<^verbatim>\<open>hop\<close>, the decimal number that follows the number
  of the last resolved reply, a colon and the destination. With no replies at all and a
  destination that resolves, the figure has one hop and mode \<^verbatim>\<open>markers\<close>.
\<close>

theorem destination_appended_when_unseen:
  assumes "trace e ip hits bc t dn st = (Inr fig, st')"
    and "ip_address e ip = Some fam"
    and "(if fam = IPv6Address then traceroute6 e (probes st) ip t
          else traceroute e (probes st) ip t) = Inr res"
    and "resolved_replies e res (st\<lparr>probes := Suc (probes st)\<rparr>) = (hs, st1)"
    and "ip \<notin> reply_src ` set hs"
  shows "ip_locations st' = ip_locations (snd (get_lat_lon e ip st1)) \<and>
         blacklisted_ips st' = blacklisted_ips (snd (get_lat_lon e ip st1)) \<and>
         lookups st' = lookups (snd (get_lat_lon e ip st1)) \<and>
         (fst (get_lat_lon e ip st1) = None \<longrightarrow>
            sg_text fig =
              map (\<lambda>i. ''hop '' @ str_int (1 + int i) @ '': '' @
                         (if dn then reply_src (hs ! i) else []))
                [0..<length hs] \<and>
            sg_lat fig = map reply_lat hs \<and> sg_lon fig = map reply_lon hs) \<and>
         (fst (get_lat_lon e ip st1) = Some (lat, lon) \<longrightarrow>
            sg_text fig =
              map (\<lambda>i. ''hop '' @ str_int (1 + int i) @ '': '' @
                         (if dn then reply_src (hs ! i) else []))
                [0..<length hs] @
              [''hop '' @ str_int (1 + int (length hs)) @ '': '' @ ip] \<and>
            int (decimal_value (str_int (1 + int (length hs)))) = 1 + int (length hs) \<and>
            sg_lat fig = map reply_lat hs @ [lat] \<and> sg_lon fig = map reply_lon hs @ [lon]) \<and>
         (res = [] \<and> fst (get_lat_lon e ip st1) \<noteq> None \<longrightarrow>
            length (sg_lat fig) = 1 \<and> sg_mode fig = ''markers'')"
proof -
  obtain h2 st2 where l: "last_hop e ip (loop_result dn hs) st1 = (h2, st2)"
    by (cases "last_hop e ip (loop_result dn hs) st1")
  note r = trace_returns [OF assms(1) assms(2) assms(3) assms(4) l]
  from assms(5) have "ip \<notin> received (loop_result dn hs)" by (simp add: loop_result_def)
  from last_hop_unseen [OF this, of e st1] l
  have h2: "h2 = (case fst (get_lat_lon e ip st1) of
        None \<Rightarrow> loop_result dn hs
      | Some (lat, lon) \<Rightarrow>
          (loop_result dn hs)\<lparr>lats := lats (loop_result dn hs) @ [lat],
            lons := lons (loop_result dn hs) @ [lon],
            labels := labels (loop_result dn hs) @ [hop_label (count (loop_result dn hs)) ip]\<rparr>)"
    and st2: "st2 = snd (get_lat_lon e ip st1)"
    by simp_all
  have empty: "res = [] \<Longrightarrow> hs = []" using assms(4) by simp
  have d: "int (decimal_value (str_int (1 + int (length hs)))) = 1 + int (length hs)"
    by (simp add: decimal_value_str_int)
  show ?thesis
    using r h2 st2 empty d
    by (cases "fst (get_lat_lon e ip st1)") (auto simp: loop_result_def hop_label_def)
qed

theorem destination_appended_when_unseen_witness:
  "trace ex_env ''10.0.0.1'' 3 1 2 False ex_state =
     (Inr \<lparr>sg_mode = ''markers'', sg_lon = [JFloat (- 74)], sg_lat = [JFloat 40],
           sg_text = [''hop 1: 10.0.0.1''],
           sg_name = ''3 packets, 1 bytes'', sg_line_width = 0,
           sg_marker_size = 10, sg_marker_symbol = ''square''\<rparr>,
      snd (trace ex_env ''10.0.0.1'' 3 1 2 False ex_state)) \<and>
   ip_address ex_env ''10.0.0.1'' = Some IPv4Address \<and>
   traceroute ex_env (probes ex_state) ''10.0.0.1'' 2 = Inr [] \<and>
   resolved_replies ex_env [] (ex_state\<lparr>probes := Suc (probes ex_state)\<rparr>) =
     ([], ex_state\<lparr>probes := Suc (probes ex_state)\<rparr>) \<and>
   ''10.0.0.1'' \<notin> reply_src ` set [] \<and>
   fst (get_lat_lon ex_env ''10.0.0.1'' (ex_state\<lparr>probes := Suc (probes ex_state)\<rparr>)) =
     Some (JFloat 40, JFloat (- 74)) \<and>
   lookups (snd (trace ex_env ''10.0.0.1'' 3 1 2 False ex_state)) =
     lookups (snd (get_lat_lon ex_env ''10.0.0.1'' (ex_state\<lparr>probes := Suc (probes ex_state)\<rparr>))) \<and>
   [''hop 1: 10.0.0.1''] = [''hop '' @ str_int 1 @ '': '' @ ''10.0.0.1''] \<and>
   length [JFloat 40] = 1"
proof -
  have h1: "trace ex_env ''10.0.0.1'' 3 1 2 False ex_state =
     (Inr \<lparr>sg_mode = ''markers'', sg_lon = [JFloat (- 74)], sg_lat = [JFloat 40],
           sg_text = [''hop 1: 10.0.0.1''],
           sg_name = ''3 packets, 1 bytes'', sg_line_width = 0,
           sg_marker_size = 10, sg_marker_symbol = ''square''\<rparr>,
      snd (trace ex_env ''10.0.0.1'' 3 1 2 False ex_state))"
    by (simp add: trace_def ex_env_def ex_ip_address_def ex_traceroute_def ex_state_def Let_def
        get_lat_lon_def ex_urlopen_json_def logging_def no_hops_def last_hop_def trace_name_def
        read_response_def py_contains_def py_getitem_def line_width_def math_log_def py_int_def
        marker_size_def hop_label_def str_int_def str_nat.simps digit_char_def)
  have h2: "ip_address ex_env ''10.0.0.1'' = Some IPv4Address"
    by (simp add: ex_env_def ex_ip_address_def)
  have h3: "(if IPv4Address = IPv6Address then traceroute6 ex_env (probes ex_state) ''10.0.0.1'' 2
             else traceroute ex_env (probes ex_state) ''10.0.0.1'' 2) = Inr []"
    by (simp add: ex_env_def ex_traceroute_def)
  have h3': "traceroute ex_env (probes ex_state) ''10.0.0.1'' 2 = Inr []"
    using h3 by simp
  have h4: "resolved_replies ex_env [] (ex_state\<lparr>probes := Suc (probes ex_state)\<rparr>) =
     ([], ex_state\<lparr>probes := Suc (probes ex_state)\<rparr>)"
    by simp
  have h5: "''10.0.0.1'' \<notin> reply_src ` set []" by simp
  have h6: "fst (get_lat_lon ex_env ''10.0.0.1'' (ex_state\<lparr>probes := Suc (probes ex_state)\<rparr>)) =
     Some (JFloat 40, JFloat (- 74))"
    by (simp add: ex_env_def ex_state_def Let_def get_lat_lon_def ex_urlopen_json_def
        read_response_def py_contains_def py_getitem_def)
  note c = destination_appended_when_unseen [OF h1 h2 h3 h4 h5, of "JFloat 40" "JFloat (- 74)"]
  have w1: "lookups (snd (trace ex_env ''10.0.0.1'' 3 1 2 False ex_state)) =
     lookups (snd (get_lat_lon ex_env ''10.0.0.1'' (ex_state\<lparr>probes := Suc (probes ex_state)\<rparr>)))"
    using c by blast
  have w2: "[''hop 1: 10.0.0.1''] = [''hop '' @ str_int 1 @ '': '' @ ''10.0.0.1'']"
    using c h6 by simp
  have w3: "length [JFloat 40] = 1"
    using c h6 by simp
  show ?thesis
    using h1 h2 h3' h4 h5 h6 w1 w2 w3 by blast
qed

subsection \<open>Lookups that fail\<close>

text \<open>
  Claim C8 as stated fails in its second half: the probe towards \<^verbatim>\<open>10.0.0.9\<close> is answered
  by \<^verbatim>\<open>10.0.0.9\<close>, whose lookup fails in transport; the address is then not in
  \<^verbatim>\<open>received\<close>, so the block after the loop resolves it again, and one \<open>trace\<close> call has
  sent two lookups for the same address.
\<close>

theorem repeated_lookup_counterexample:
  "lookups (snd (trace ex_env ''10.0.0.9'' 1 64 2 False ex_state)) = [''10.0.0.9'', ''10.0.0.9'']"
  by (simp add: trace_def ex_env_def ex_ip_address_def ex_traceroute_def ex_state_def Let_def
      get_lat_lon_def ex_urlopen_json_def logging_def no_hops_def last_hop_def trace_name_def
      split: sum.splits)

text \<open>
  Claim C8, amended. When the lookup of an address raises, \<open>get_lat_lon\<close> returns nothing,
  logs a warning and changes neither the cache nor the blacklist (so the next call for
  the address asks again); an address that is cached or blacklisted is never looked up
  again, whatever operations follow.
\<close>

theorem lookup_failure_and_settled_addresses:
  "(a \<notin> blacklisted_ips st \<and> map_of (ip_locations st) a = None \<and>
    urlopen_json e (length (lookups st)) a = Inl err \<longrightarrow>
      get_lat_lon e a st =
        (None, logging WARNING (Unable_to_determine_location a err)
                 (st\<lparr>lookups := lookups st @ [a]\<rparr>))) \<and>
   (a \<in> blacklisted_ips st \<or> a \<in> fst ` set (ip_locations st) \<longrightarrow>
      count_list (lookups (run e ops st)) a = count_list (lookups st) a)"
proof (intro conjI impI)
  assume "a \<notin> blacklisted_ips st \<and> map_of (ip_locations st) a = None \<and>
    urlopen_json e (length (lookups st)) a = Inl err"
  then show "get_lat_lon e a st =
        (None, logging WARNING (Unable_to_determine_location a err)
                 (st\<lparr>lookups := lookups st @ [a]\<rparr>))"
    by (simp add: get_lat_lon_def Let_def)
next
  assume "a \<in> blacklisted_ips st \<or> a \<in> fst ` set (ip_locations st)"
  then have start: "(a \<in> blacklisted_ips st \<or> map_of (ip_locations st) a \<noteq> None) \<and>
      count_list (lookups st) a = count_list (lookups st) a"
    by (simp add: keys_map_of)
  have "(\<lambda>s. (a \<in> blacklisted_ips s \<or> map_of (ip_locations s) a \<noteq> None) \<and>
      count_list (lookups s) a = count_list (lookups st) a) (run e ops st)"
  proof (rule run_preserves)
    fix x and s :: state
    assume "(a \<in> blacklisted_ips s \<or> map_of (ip_locations s) a \<noteq> None) \<and>
      count_list (lookups s) a = count_list (lookups st) a"
    then show "(a \<in> blacklisted_ips (exec_op e x s) \<or>
        map_of (ip_locations (exec_op e x s)) a \<noteq> None) \<and>
      count_list (lookups (exec_op e x s)) a = count_list (lookups st) a"
      by (rule exec_op_keeps_settled)
  qed (use start in simp)
  then show "count_list (lookups (run e ops st)) a = count_list (lookups st) a"
    by simp
qed

theorem lookup_failure_and_settled_addresses_witness:
  "(''10.0.0.9'' \<notin> blacklisted_ips ex_state \<and> map_of (ip_locations ex_state) ''10.0.0.9'' = None \<and>
    urlopen_json ex_env (length (lookups ex_state)) ''10.0.0.9'' = Inl OtherException) \<and>
   get_lat_lon ex_env ''10.0.0.9'' ex_state =
     (None, logging WARNING (Unable_to_determine_location ''10.0.0.9'' OtherException)
              (ex_state\<lparr>lookups := lookups ex_state @ [''10.0.0.9'']\<rparr>)) \<and>
   (''10.0.0.2'' \<in> blacklisted_ips (snd (get_lat_lon ex_env ''10.0.0.2'' ex_state)) \<or>
    ''10.0.0.2'' \<in> fst ` set (ip_locations (snd (get_lat_lon ex_env ''10.0.0.2'' ex_state)))) \<and>
   count_list (lookups (run ex_env [Trace_route ''10.0.0.3'' 3 64 2 False, Get_lat_lon ''10.0.0.2'']
                  (snd (get_lat_lon ex_env ''10.0.0.2'' ex_state)))) ''10.0.0.2'' =
     count_list (lookups (snd (get_lat_lon ex_env ''10.0.0.2'' ex_state))) ''10.0.0.2''"
proof -
  have h1: "''10.0.0.9'' \<notin> blacklisted_ips ex_state \<and>
      map_of (ip_locations ex_state) ''10.0.0.9'' = None \<and>
      urlopen_json ex_env (length (lookups ex_state)) ''10.0.0.9'' = Inl OtherException"
    by (simp add: ex_state_def ex_env_def ex_urlopen_json_def)
  have h2: "''10.0.0.2'' \<in> blacklisted_ips (snd (get_lat_lon ex_env ''10.0.0.2'' ex_state))"
    by (simp add: get_lat_lon_def ex_env_def ex_state_def ex_urlopen_json_def read_response_def
        py_contains_def py_getitem_def Let_def)
  from lookup_failure_and_settled_addresses
         [of "''10.0.0.9''" ex_state ex_env OtherException]
       lookup_failure_and_settled_addresses
         [of "''10.0.0.2''" "snd (get_lat_lon ex_env ''10.0.0.2'' ex_state)" ex_env _
            "[Trace_route ''10.0.0.3'' 3 64 2 False, Get_lat_lon ''10.0.0.2'']"]
       h1 h2
  show ?thesis by blast
qed

subsection \<open>The line width and the byte count\<close>




subsection \<open>What is stored as a coordinate\<close>

text \<open>
  Claim C10 as stated fails: the answer \<^verbatim>\<open>{"latitude": "abc", "longitude": "def"}\<close> is
  stored and returned.
\<close>

theorem non_numeric_coordinate_counterexample:
  "fst (get_lat_lon ex_env ''10.0.0.7'' ex_state) = Some (JStr ''abc'', JStr ''def'') \<and>
   map_of (ip_locations (snd (get_lat_lon ex_env ''10.0.0.7'' ex_state))) ''10.0.0.7'' =
     Some (JStr ''abc'', JStr ''def'')"
  by (simp add: get_lat_lon_def ex_env_def ex_state_def ex_urlopen_json_def read_response_def
      py_contains_def py_getitem_def Let_def)

text \<open>
  Claim C10, amended. When the provider answers the lookup of an address with a JSON
  value, \<open>get_lat_lon\<close> returns a pair exactly when the value is an object that has both
  fields and neither is \<^verbatim>\<open>null\<close> or the string \<^verbatim>\<open>Not found\<close>; the pair is the two field
  values as they are, numbers or not, and it is what the cache then holds for the
  address.
\<close>

theorem stores_whatever_is_not_sentinel:
  assumes "a \<notin> blacklisted_ips st" and "map_of (ip_locations st) a = None"
    and "urlopen_json e (length (lookups st)) a = Inr j"
  shows "((fst (get_lat_lon e a st) = Some (lat, lon)) =
           (py_getitem j ''latitude'' = Inr lat \<and> py_getitem j ''longitude'' = Inr lon \<and>
            lat \<noteq> JNull \<and> lat \<noteq> JStr ''Not found'' \<and>
            lon \<noteq> JNull \<and> lon \<noteq> JStr ''Not found'')) \<and>
         (fst (get_lat_lon e a st) = Some (lat, lon) \<longrightarrow>
            map_of (ip_locations (snd (get_lat_lon e a st))) a = Some (lat, lon))"
proof
  show "(fst (get_lat_lon e a st) = Some (lat, lon)) =
           (py_getitem j ''latitude'' = Inr lat \<and> py_getitem j ''longitude'' = Inr lon \<and>
            lat \<noteq> JNull \<and> lat \<noteq> JStr ''Not found'' \<and>
            lon \<noteq> JNull \<and> lon \<noteq> JStr ''Not found'')"
    unfolding read_response_Found [symmetric]
    using assms
    by (auto simp: get_lat_lon_def Let_def logging_def split: sum.splits lookup_outcome.splits)
  show "fst (get_lat_lon e a st) = Some (lat, lon) \<longrightarrow>
           map_of (ip_locations (snd (get_lat_lon e a st))) a = Some (lat, lon)"
    using get_lat_lon_Some [of e a st "(lat, lon)" "snd (get_lat_lon e a st)"]
    by (cases "get_lat_lon e a st") auto
qed

theorem stores_whatever_is_not_sentinel_witness:
  "''10.0.0.7'' \<notin> blacklisted_ips ex_state \<and> map_of (ip_locations ex_state) ''10.0.0.7'' = None \<and>
   urlopen_json ex_env (length (lookups ex_state)) ''10.0.0.7'' =
     Inr (JObj [(''latitude'', JStr ''abc''), (''longitude'', JStr ''def'')]) \<and>
   fst (get_lat_lon ex_env ''10.0.0.7'' ex_state) = Some (JStr ''abc'', JStr ''def'') \<and>
   map_of (ip_locations (snd (get_lat_lon ex_env ''10.0.0.7'' ex_state))) ''10.0.0.7'' =
     Some (JStr ''abc'', JStr ''def'')"
proof -
  have h1: "''10.0.0.7'' \<notin> blacklisted_ips ex_state" by (simp add: ex_state_def)
  have h2: "map_of (ip_locations ex_state) ''10.0.0.7'' = None" by (simp add: ex_state_def)
  have h3: "urlopen_json ex_env (length (lookups ex_state)) ''10.0.0.7'' =
     Inr (JObj [(''latitude'', JStr ''abc''), (''longitude'', JStr ''def'')])"
    by (simp add: ex_env_def ex_urlopen_json_def)
  from stores_whatever_is_not_sentinel [OF h1 h2 h3, of "JStr ''abc''" "JStr ''def''"] h1 h2 h3
  show ?thesis by (simp add: py_getitem_def)
qed

end
